theory Spec2Isabelle
  imports Complex_Main
begin

section \<open>Floating-point values\<close>

text \<open>
  The sensor columns are float64. A value is a finite number, one of the two infinities
  or NaN. The special values follow IEEE 754 as numpy implements it: NaN is absorbing for
  \<open>+\<close>, \<open>-\<close>, \<open>np.minimum\<close> and \<open>np.maximum\<close>, and every ordered comparison and \<open>==\<close> with a NaN
  operand is false. The sign of zero is not modelled; no comparison sees it.
\<close>

datatype fval = Fin real | PInf | NInf | NaN

text \<open>
  A float64 operation returns the exact result rounded to the nearest float64, ties to
  the one with the even significand. \<open>round_half_even\<close> rounds a real to an integer in this
  way. The float64 numbers around \<open>x\<close> are the multiples of \<open>2 powi ulp_exponent x\<close>: the
  significand has 53 bits, and below \<open>2 powi (- 1022)\<close> (the subnormal numbers) the spacing
  stays at \<open>2 powi (- 1074)\<close>. A rounded result beyond the largest float64 is an infinity.
\<close>

definition round_half_even :: "real \<Rightarrow> int" where
  "round_half_even q =
     (if q - of_int \<lfloor>q\<rfloor> < 1/2 then \<lfloor>q\<rfloor>
      else if 1/2 < q - of_int \<lfloor>q\<rfloor> then \<lfloor>q\<rfloor> + 1
      else if even \<lfloor>q\<rfloor> then \<lfloor>q\<rfloor> else \<lfloor>q\<rfloor> + 1)"

definition ulp_exponent :: "real \<Rightarrow> int" where
  "ulp_exponent x = max \<lfloor>log 2 \<bar>x\<bar>\<rfloor> (- 1022) - 52"

definition round_to_ulp :: "real \<Rightarrow> real" where
  "round_to_ulp x =
     of_int (round_half_even (x / 2 powi ulp_exponent x)) * 2 powi ulp_exponent x"

definition max_float :: real where
  "max_float = (2 ^ 53 - 1) * 2 ^ 971"

definition fl :: "real \<Rightarrow> fval" where
  "fl x = (if max_float < round_to_ulp x then PInf
           else if round_to_ulp x < - max_float then NInf
           else Fin (round_to_ulp x))"

fun fneg :: "fval \<Rightarrow> fval" where
  "fneg (Fin a) = Fin (- a)"
| "fneg PInf = NInf"
| "fneg NInf = PInf"
| "fneg NaN = NaN"

fun fadd :: "fval \<Rightarrow> fval \<Rightarrow> fval" where
  "fadd NaN _ = NaN"
| "fadd _ NaN = NaN"
| "fadd (Fin a) (Fin b) = fl (a + b)"
| "fadd PInf NInf = NaN"
| "fadd NInf PInf = NaN"
| "fadd PInf _ = PInf"
| "fadd NInf _ = NInf"
| "fadd (Fin a) PInf = PInf"
| "fadd (Fin a) NInf = NInf"

definition fsub :: "fval \<Rightarrow> fval \<Rightarrow> fval" where
  "fsub a b = fadd a (fneg b)"

fun flt :: "fval \<Rightarrow> fval \<Rightarrow> bool" where
  "flt NaN _ = False"
| "flt _ NaN = False"
| "flt (Fin a) (Fin b) = (a < b)"
| "flt PInf _ = False"
| "flt _ NInf = False"
| "flt NInf _ = True"
| "flt (Fin a) PInf = True"

definition fgt :: "fval \<Rightarrow> fval \<Rightarrow> bool" where
  "fgt a b = flt b a"

fun feq :: "fval \<Rightarrow> fval \<Rightarrow> bool" where
  "feq NaN _ = False"
| "feq _ NaN = False"
| "feq a b = (a = b)"

text \<open>\<open>fle\<close> is \<open><=\<close> on floats; the proofs use it to order the values that are not NaN.\<close>

fun fle :: "fval \<Rightarrow> fval \<Rightarrow> bool" where
  "fle NaN _ = False"
| "fle _ NaN = False"
| "fle a b = (\<not> flt b a)"

text \<open>\<open>np.minimum\<close> and \<open>np.maximum\<close>: element-wise, propagating NaN.\<close>

fun np_minimum :: "fval \<Rightarrow> fval \<Rightarrow> fval" where
  "np_minimum NaN _ = NaN"
| "np_minimum _ NaN = NaN"
| "np_minimum a b = (if flt b a then b else a)"

fun np_maximum :: "fval \<Rightarrow> fval \<Rightarrow> fval" where
  "np_maximum NaN _ = NaN"
| "np_maximum _ NaN = NaN"
| "np_maximum a b = (if flt a b then b else a)"

section \<open>Fault conditions two and three (fc2_3.py)\<close>

text \<open>
  One row of the data frame of \<^verbatim>\<open>fc2_3.py\<close>: the three temperature columns and the three
  parameter columns that the script adds to the frame before it evaluates the rules.
\<close>

record row23 =
  mat :: fval
  rat :: fval
  oat :: fval
  mix_degf_err_thres :: fval
  return_degf_err_thres :: fval
  outdoor_degf_err_thres :: fval

definition OUTDOOR_DEGF_ERR_THRES :: real where "OUTDOOR_DEGF_ERR_THRES = 5"
definition MIX_DEGF_ERR_THRES :: real where "MIX_DEGF_ERR_THRES = 5"
definition RETURN_DEGF_ERR_THRES :: real where "RETURN_DEGF_ERR_THRES = 2"

text \<open>The script's \<^verbatim>\<open>df['..._err_thres'] = CONSTANT\<close>: a row of the frame as the rules see it.\<close>

definition script_row :: "fval \<Rightarrow> fval \<Rightarrow> fval \<Rightarrow> row23" where
  "script_row m r out = \<lparr>mat = m, rat = r, oat = out,
     mix_degf_err_thres = Fin MIX_DEGF_ERR_THRES,
     return_degf_err_thres = Fin RETURN_DEGF_ERR_THRES,
     outdoor_degf_err_thres = Fin OUTDOOR_DEGF_ERR_THRES\<rparr>"

text \<open>The two rules on one row; the frame-level functions \<^verbatim>\<open>fault_condition_two_\<close> and
  \<^verbatim>\<open>fault_condition_three_\<close> (named here without the trailing underscore) map them over the rows.\<close>

definition fc2_row :: "row23 \<Rightarrow> bool" where
  "fc2_row r = flt (fadd (mat r) (mix_degf_err_thres r))
                   (np_minimum (fsub (rat r) (return_degf_err_thres r))
                               (fsub (oat r) (outdoor_degf_err_thres r)))"

definition fc3_row :: "row23 \<Rightarrow> bool" where
  "fc3_row r = fgt (fsub (mat r) (mix_degf_err_thres r))
                   (np_maximum (fadd (rat r) (return_degf_err_thres r))
                               (fadd (oat r) (outdoor_degf_err_thres r)))"

definition fault_condition_two :: "row23 list \<Rightarrow> bool list" where
  "fault_condition_two df = map fc2_row df"

definition fault_condition_three :: "row23 list \<Rightarrow> bool list" where
  "fault_condition_three df = map fc3_row df"

text \<open>A row of finite values.\<close>

definition fin_row :: "real \<Rightarrow> real \<Rightarrow> real \<Rightarrow> real \<Rightarrow> real \<Rightarrow> real \<Rightarrow> row23" where
  "fin_row m r out tm tr tout = \<lparr>mat = Fin m, rat = Fin r, oat = Fin out,
     mix_degf_err_thres = Fin tm, return_degf_err_thres = Fin tr,
     outdoor_degf_err_thres = Fin tout\<rparr>"

section \<open>Data frames\<close>

text \<open>
  A cell of a pandas column: a float64, an int64 or a bool. \<open>cell_val\<close> is the number a
  comparison sees (\<open>True\<close> is 1, \<open>False\<close> is 0). A data frame is its index, the row
  timestamps in whole seconds since the epoch, and its columns in order, each a name with
  one cell per row. Integers are unbounded: the counts of this program stay far below
  \<open>2^63\<close>.
\<close>

datatype cell = F fval | I int | B bool

fun cell_val :: "cell \<Rightarrow> fval" where
  "cell_val (F v) = v"
| "cell_val (I i) = Fin (real_of_int i)"
| "cell_val (B b) = Fin (if b then 1 else 0)"

record table =
  tindex :: "int list"
  columns :: "(string \<times> cell list) list"

datatype error =
    KeyError string
  | IntCastingNaNError
  | MissingColumnError string
  | InvalidSignalType string
  | InvalidSignalRange string

text \<open>\<^verbatim>\<open>df[name]\<close>: the column, or KeyError.\<close>

definition getitem :: "table \<Rightarrow> string \<Rightarrow> error + cell list" where
  "getitem df name = (case map_of (columns df) name of
                        None \<Rightarrow> Inl (KeyError name)
                      | Some xs \<Rightarrow> Inr xs)"

text \<open>\<^verbatim>\<open>df[name] = values\<close>: an existing column is replaced where it stands, a new one is
  appended after the last column.\<close>

fun set_col :: "(string \<times> cell list) list \<Rightarrow> string \<Rightarrow> cell list \<Rightarrow> (string \<times> cell list) list" where
  "set_col [] name v = [(name, v)]"
| "set_col ((k, x) # cs) name v =
     (if k = name then (name, v) # cs else (k, x) # set_col cs name v)"

definition setitem :: "table \<Rightarrow> string \<Rightarrow> cell list \<Rightarrow> table" where
  "setitem df name v = df\<lparr>columns := set_col (columns df) name v\<rparr>"

text \<open>Element-wise operations on a column (a pandas Series).\<close>

definition s_gt :: "cell list \<Rightarrow> real \<Rightarrow> bool list" where
  "s_gt x r = map (\<lambda>c. fgt (cell_val c) (Fin r)) x"

definition s_eq :: "cell list \<Rightarrow> real \<Rightarrow> bool list" where
  "s_eq x r = map (\<lambda>c. feq (cell_val c) (Fin r)) x"

definition s_ne :: "cell list \<Rightarrow> real \<Rightarrow> bool list" where
  "s_ne x r = map (\<lambda>c. \<not> feq (cell_val c) (Fin r)) x"

definition s_and :: "bool list \<Rightarrow> bool list \<Rightarrow> bool list" where
  "s_and x y = map (\<lambda>(a, b). a \<and> b) (zip x y)"

text \<open>\<^verbatim>\<open>x.shift()\<close>: every value moves down one row, the first row becomes NaN and the last
  value is dropped.\<close>

definition s_shift :: "cell list \<Rightarrow> cell list" where
  "s_shift x = (if x = [] then [] else F NaN # butlast x)"

text \<open>\<^verbatim>\<open>.sum()\<close> of a boolean series: the number of true rows.\<close>

definition s_sum :: "bool list \<Rightarrow> int" where
  "s_sum x = int (length (filter (\<lambda>b. b) x))"

text \<open>\<^verbatim>\<open>df.astype(int)\<close>: every column is cast to int64 in a new frame. A float is truncated
  towards zero; NaN and the infinities make the cast raise.\<close>

fun cell_astype_int :: "cell \<Rightarrow> error + cell" where
  "cell_astype_int (F (Fin r)) = Inr (I (if 0 \<le> r then \<lfloor>r\<rfloor> else \<lceil>r\<rceil>))"
| "cell_astype_int (F _) = Inl IntCastingNaNError"
| "cell_astype_int (I i) = Inr (I i)"
| "cell_astype_int (B b) = Inr (I (if b then 1 else 0))"

fun series_astype_int :: "cell list \<Rightarrow> error + cell list" where
  "series_astype_int [] = Inr []"
| "series_astype_int (c # cs) =
     (case cell_astype_int c of
        Inl e \<Rightarrow> Inl e
      | Inr c' \<Rightarrow> (case series_astype_int cs of Inl e \<Rightarrow> Inl e | Inr cs' \<Rightarrow> Inr (c' # cs')))"

fun columns_astype_int :: "(string \<times> cell list) list \<Rightarrow> error + (string \<times> cell list) list" where
  "columns_astype_int [] = Inr []"
| "columns_astype_int ((name, x) # cs) =
     (case series_astype_int x of
        Inl e \<Rightarrow> Inl e
      | Inr x' \<Rightarrow> (case columns_astype_int cs of
                     Inl e \<Rightarrow> Inl e
                   | Inr cs' \<Rightarrow> Inr ((name, x') # cs')))"

definition astype_int :: "table \<Rightarrow> error + table" where
  "astype_int df = (case columns_astype_int (columns df) of
                      Inl e \<Rightarrow> Inl e
                    | Inr cs \<Rightarrow> Inr (df\<lparr>columns := cs\<rparr>))"

text \<open>
  \<^verbatim>\<open>df.resample("h")\<close>: the rows are sorted by timestamp (a stable sort, which leaves a
  sorted frame as it is) and put into hourly bins, closed on the left and labelled by
  their start. There is one bin for every hour from the hour of the first row to the hour
  of the last row, also for an hour that has no row.
\<close>

definition hour_of :: "int \<Rightarrow> int" where
  "hour_of ts = ts div 3600"

definition hour_bins :: "int list \<Rightarrow> int list" where
  "hour_bins idx = (if idx = [] then []
                    else [hour_of (hd (sort idx)) .. hour_of (last (sort idx))])"

definition bucket :: "int list \<Rightarrow> 'a list \<Rightarrow> int \<Rightarrow> 'a list" where
  "bucket idx x k = map snd (filter (\<lambda>(ts, v). hour_of ts = k) (sort_key fst (zip idx x)))"

text \<open>The function given to \<^verbatim>\<open>.apply\<close>: \<^verbatim>\<open>lambda x: (x.eq(1) & x.shift().ne(1)).sum()\<close>. pandas
  calls it once per column and bin, with the rows of that bin only.\<close>

definition count_rising :: "cell list \<Rightarrow> int" where
  "count_rising x = s_sum (s_and (s_eq x 1) (s_ne (s_shift x) 1))"

definition resample_h_apply :: "table \<Rightarrow> table" where
  "resample_h_apply df =
     \<lparr>tindex = map (\<lambda>k. k * 3600) (hour_bins (tindex df)),
      columns = map (\<lambda>(name, x).
                  (name, map (\<lambda>k. I (count_rising (bucket (tindex df) x k)))
                             (hour_bins (tindex df))))
                (columns df)\<rparr>"

text \<open>\<^verbatim>\<open>df[df.columns].gt(d).any(axis=1)\<close>: per row, whether some column of the frame is
  greater than \<open>d\<close>.\<close>

definition any_gt :: "table \<Rightarrow> real \<Rightarrow> bool list" where
  "any_gt df d = map (\<lambda>j. list_ex (\<lambda>(name, x). fgt (cell_val (x ! j)) (Fin d)) (columns df))
                     [0..<length (tindex df)]"

section \<open>Fault condition four (fault_condition_four.py)\<close>

record fault_condition_four =
  delta_os_max :: real
  ahu_min_oa_dpr :: real
  economizer_sig_col :: string
  heating_sig_col :: string
  cooling_sig_col :: string
  supply_vfd_speed_col :: string
  troubleshoot_mode :: bool

text \<open>
  The base class \<^verbatim>\<open>FaultCondition\<close> with \<^verbatim>\<open>check_analog_pct\<close> and \<^verbatim>\<open>troubleshoot_cols\<close> is not
  among the source files. \<^verbatim>\<open>apply\<close> takes the validator as a parameter: a check of a
  frame and a list of column names that raises (\<open>Some\<close>) or passes (\<open>None\<close>) and has no
  other effect.
\<close>

type_synonym validator = "table \<Rightarrow> string list \<Rightarrow> error option"

text \<open>
  Modelled from the spec: the Signal Validator \<^verbatim>\<open>check_analog_pct\<close> (section 4.1). For each
  named column it fails with \<open>MissingColumnError\<close> when the frame has no such column, with
  \<open>InvalidSignalType\<close> when a value is not a float, and with \<open>InvalidSignalRange\<close> when a
  value is below 0 or above 1. It has no side effect.
\<close>

fun check_analog_pct :: validator where
  "check_analog_pct df [] = None"
| "check_analog_pct df (col # cs) =
     (case map_of (columns df) col of
        None \<Rightarrow> Some (MissingColumnError col)
      | Some x \<Rightarrow>
          if list_ex (\<lambda>c. case c of F _ \<Rightarrow> False | _ \<Rightarrow> True) x
            then Some (InvalidSignalType col)
          else if list_ex (\<lambda>c. flt (cell_val c) (Fin 0) \<or> fgt (cell_val c) (Fin 1)) x
            then Some (InvalidSignalRange col)
          else check_analog_pct df cs)"

text \<open>
  Modelled from the spec: the Diagnostics Hook \<^verbatim>\<open>troubleshoot_cols\<close> (sections 2 and 4.5), a
  pass-through that shows the columns and never changes a value. Its printing is not
  modelled.
\<close>

definition troubleshoot_cols :: "table \<Rightarrow> table" where
  "troubleshoot_cols df = df"

definition columns_to_check :: "fault_condition_four \<Rightarrow> string list" where
  "columns_to_check self =
     [economizer_sig_col self, heating_sig_col self, cooling_sig_col self,
      supply_vfd_speed_col self]"

text \<open>\<^verbatim>\<open>for col in columns_to_check: self.check_analog_pct(df, [col])\<close>\<close>

fun check_loop :: "validator \<Rightarrow> table \<Rightarrow> string list \<Rightarrow> error option" where
  "check_loop chk df [] = None"
| "check_loop chk df (col # cs) =
     (case chk df [col] of Some e \<Rightarrow> Some e | None \<Rightarrow> check_loop chk df cs)"

text \<open>
  Each of the four mode expressions reads the heating, cooling, fan-speed and economizer
  columns, in this order, so a missing column raises KeyError before anything is
  compared.
\<close>

definition get_signals ::
  "fault_condition_four \<Rightarrow> table \<Rightarrow> error + (cell list \<times> cell list \<times> cell list \<times> cell list)" where
  "get_signals self df =
     (case getitem df (heating_sig_col self) of Inl e \<Rightarrow> Inl e | Inr htg \<Rightarrow>
      case getitem df (cooling_sig_col self) of Inl e \<Rightarrow> Inl e | Inr clg \<Rightarrow>
      case getitem df (supply_vfd_speed_col self) of Inl e \<Rightarrow> Inl e | Inr fan \<Rightarrow>
      case getitem df (economizer_sig_col self) of Inl e \<Rightarrow> Inl e | Inr econ \<Rightarrow>
      Inr (htg, clg, fan, econ))"

definition heating_mode :: "fault_condition_four \<Rightarrow> table \<Rightarrow> error + bool list" where
  "heating_mode self df =
     (case get_signals self df of Inl e \<Rightarrow> Inl e | Inr (htg, clg, fan, econ) \<Rightarrow>
        Inr (s_and (s_and (s_and (s_gt htg 0) (s_eq clg 0)) (s_gt fan 0))
                   (s_eq econ (ahu_min_oa_dpr self))))"

definition econ_only_cooling_mode :: "fault_condition_four \<Rightarrow> table \<Rightarrow> error + bool list" where
  "econ_only_cooling_mode self df =
     (case get_signals self df of Inl e \<Rightarrow> Inl e | Inr (htg, clg, fan, econ) \<Rightarrow>
        Inr (s_and (s_and (s_and (s_eq htg 0) (s_eq clg 0)) (s_gt fan 0))
                   (s_gt econ (ahu_min_oa_dpr self))))"

definition econ_plus_mech_cooling_mode :: "fault_condition_four \<Rightarrow> table \<Rightarrow> error + bool list" where
  "econ_plus_mech_cooling_mode self df =
     (case get_signals self df of Inl e \<Rightarrow> Inl e | Inr (htg, clg, fan, econ) \<Rightarrow>
        Inr (s_and (s_and (s_and (s_eq htg 0) (s_gt clg 0)) (s_gt fan 0))
                   (s_gt econ (ahu_min_oa_dpr self))))"

definition mech_cooling_only_mode :: "fault_condition_four \<Rightarrow> table \<Rightarrow> error + bool list" where
  "mech_cooling_only_mode self df =
     (case get_signals self df of Inl e \<Rightarrow> Inl e | Inr (htg, clg, fan, econ) \<Rightarrow>
        Inr (s_and (s_and (s_and (s_eq htg 0) (s_gt clg 0)) (s_gt fan 0))
                   (s_eq econ (ahu_min_oa_dpr self))))"

text \<open>\<^verbatim>\<open>df[name] = expr\<close>: the expression is evaluated first; if it raises, the frame is
  left as it was.\<close>

definition assign :: "table \<Rightarrow> string \<Rightarrow> (table \<Rightarrow> error + bool list) \<Rightarrow> error + table" where
  "assign df name expr = (case expr df of
                            Inl e \<Rightarrow> Inl e
                          | Inr bs \<Rightarrow> Inr (setitem df name (map B bs)))"

definition mode_names :: "string list" where
  "mode_names = [''heating_mode'', ''econ_only_cooling_mode'',
                 ''econ_plus_mech_cooling_mode'', ''mech_cooling_only_mode'']"

text \<open>Lines 48 to 77: the four assignments in sequence, each on the frame the previous one
  left. The result is the frame as it stands at the end, and the error if one was raised.\<close>

definition assign_modes :: "fault_condition_four \<Rightarrow> table \<Rightarrow> table \<times> error option" where
  "assign_modes self df =
     (case assign df ''heating_mode'' (heating_mode self) of
        Inl e \<Rightarrow> (df, Some e) | Inr d1 \<Rightarrow>
      case assign d1 ''econ_only_cooling_mode'' (econ_only_cooling_mode self) of
        Inl e \<Rightarrow> (d1, Some e) | Inr d2 \<Rightarrow>
      case assign d2 ''econ_plus_mech_cooling_mode'' (econ_plus_mech_cooling_mode self) of
        Inl e \<Rightarrow> (d2, Some e) | Inr d3 \<Rightarrow>
      case assign d3 ''mech_cooling_only_mode'' (mech_cooling_only_mode self) of
        Inl e \<Rightarrow> (d3, Some e) | Inr d4 \<Rightarrow> (d4, None))"

text \<open>Line 82: \<^verbatim>\<open>df["fc4_flag"] = df[df.columns].gt(self.delta_os_max).any(axis=1).astype(int)\<close>\<close>

definition set_fc4_flag :: "fault_condition_four \<Rightarrow> table \<Rightarrow> table" where
  "set_fc4_flag self df =
     setitem df ''fc4_flag''
       (map (\<lambda>b. I (if b then 1 else 0)) (any_gt df (delta_os_max self)))"

text \<open>
  Frames are objects: the caller and \<^verbatim>\<open>apply\<close> hold references to the same frame. The heap
  is the list of the frames that exist, a reference is a position in it, and a new frame
  is put at the end.
\<close>

type_synonym heap = "table list"

definition alloc :: "heap \<Rightarrow> table \<Rightarrow> heap \<times> nat" where
  "alloc h t = (h @ [t], length h)"

text \<open>
  \<^verbatim>\<open>FaultConditionFour.apply(self, df)\<close>. The result is the heap when the call ends and
  either the error raised or the reference returned. The mode columns are written into
  the frame \<open>df\<close> refers to; \<^verbatim>\<open>astype\<close> and \<^verbatim>\<open>resample(...).apply\<close> each make a new frame, and the
  flag column is written into the last one. A reference held by a caller always denotes a
  frame, so the properties below are stated for \<open>df < length h\<close>. The \<^verbatim>\<open>HelperUtils\<close> object
  that \<^verbatim>\<open>apply\<close> makes and never uses, and its \<^verbatim>\<open>print\<close>, are left out.
\<close>

definition FaultConditionFour_apply ::
  "fault_condition_four \<Rightarrow> validator \<Rightarrow> heap \<Rightarrow> nat \<Rightarrow> heap \<times> (error + nat)" where
  "FaultConditionFour_apply self chk h df =
     (let h0 = (if troubleshoot_mode self then h[df := troubleshoot_cols (h ! df)] else h) in
      case check_loop chk (h0 ! df) (columns_to_check self) of
        Some e \<Rightarrow> (h0, Inl e)
      | None \<Rightarrow>
         (case assign_modes self (h0 ! df) of
            (d, Some e) \<Rightarrow> (h0[df := d], Inl e)
          | (d, None) \<Rightarrow>
             (let h1 = h0[df := d] in
              case astype_int (h1 ! df) of
                Inl e \<Rightarrow> (h1, Inl e)
              | Inr t \<Rightarrow>
                 (let (h2, df2) = alloc h1 t;
                      (h3, df3) = alloc h2 (resample_h_apply (h2 ! df2));
                      h4 = h3[df3 := set_fc4_flag self (h3 ! df3)]
                  in (h4, Inr df3)))))"

text \<open>
  The configuration binds the four signal roles to sensor columns; \<open>names_ok\<close> says that
  none of them is bound to the name of a column that \<^verbatim>\<open>apply\<close> itself writes.
  \<open>mode_at df name i\<close> reads a mode indicator: column \<open>name\<close> exists and is true at row \<open>i\<close>.
\<close>

definition names_ok :: "fault_condition_four \<Rightarrow> bool" where
  "names_ok self = list_all (\<lambda>c. c \<notin> set mode_names) (columns_to_check self)"

definition mode_at :: "table \<Rightarrow> string \<Rightarrow> nat \<Rightarrow> bool" where
  "mode_at df name i = (case getitem df name of
                          Inl e \<Rightarrow> False
                        | Inr x \<Rightarrow> i < length x \<and> x ! i = B True)"

text \<open>\<open>has_column df name\<close>: the frame has a column of that name.\<close>

definition has_column :: "table \<Rightarrow> string \<Rightarrow> bool" where
  "has_column df name = (name \<in> set (map fst (columns df)))"

section \<open>Rising edges, in words\<close>

text \<open>
  The rising edges of a mode indicator counted in one hourly bin on its own: the rows of
  the bin where the indicator is true and the row before it in the same bin is not. The
  first row of the bin has no row before it.
\<close>

definition rising_edges :: "bool list \<Rightarrow> nat" where
  "rising_edges b = length (filter (\<lambda>j. b ! j \<and> (j = 0 \<or> \<not> b ! (j - 1))) [0..<length b])"

text \<open>
  The rising edges of hour \<open>k\<close> as section 4.4 of the spec describes them: the rows of the
  hour where the indicator is true and the row before it in the whole series, sorted by
  time and not yet resampled, is not. Only the first row of the series has no row before
  it.
\<close>

definition edges_unresampled :: "int list \<Rightarrow> bool list \<Rightarrow> int \<Rightarrow> nat" where
  "edges_unresampled idx b k =
     (let rows = sort_key fst (zip idx b) in
      length (filter (\<lambda>j. hour_of (fst (rows ! j)) = k \<and> snd (rows ! j)
                          \<and> (j = 0 \<or> \<not> snd (rows ! (j - 1))))
                [0..<length rows]))"

section \<open>Example data\<close>

definition ex_cfg :: fault_condition_four where
  "ex_cfg = \<lparr>delta_os_max = 7, ahu_min_oa_dpr = 1/5,
     economizer_sig_col = ''economizer_sig'', heating_sig_col = ''heating_sig'',
     cooling_sig_col = ''cooling_sig'', supply_vfd_speed_col = ''supply_vfd_speed'',
     troubleshoot_mode = False\<rparr>"

text \<open>Three rows five minutes apart: heating only; fan off; heating and cooling together.\<close>

definition ex_rows :: table where
  "ex_rows = \<lparr>tindex = [0, 300, 600],
     columns = [(''economizer_sig'', [F (Fin (1/5)), F (Fin (1/5)), F (Fin (1/5))]),
                (''heating_sig'', [F (Fin (1/2)), F (Fin (1/2)), F (Fin (1/2))]),
                (''cooling_sig'', [F (Fin 0), F (Fin 0), F (Fin (1/2))]),
                (''supply_vfd_speed'', [F (Fin (4/5)), F (Fin 0), F (Fin (4/5))])]\<rparr>"

text \<open>The heating signal is integer-coded, which the validator rejects.\<close>

definition ex_int_coded :: table where
  "ex_int_coded = \<lparr>tindex = [0, 300],
     columns = [(''economizer_sig'', [F (Fin (1/5)), F (Fin (1/5))]),
                (''heating_sig'', [I 1, I 0]),
                (''cooling_sig'', [F (Fin 0), F (Fin 0)]),
                (''supply_vfd_speed'', [F (Fin (4/5)), F (Fin (4/5))])]\<rparr>"

text \<open>Six rows a quarter of an hour apart that alternate between heating and economizer-only
  cooling: four rows in the first hour, two in the second.\<close>

definition ex_alt :: table where
  "ex_alt = \<lparr>tindex = [0, 900, 1800, 2700, 3600, 4500],
     columns = [(''economizer_sig'', [F (Fin (1/5)), F (Fin (3/5)), F (Fin (1/5)), F (Fin (3/5)),
                                      F (Fin (1/5)), F (Fin (3/5))]),
                (''heating_sig'', [F (Fin (1/2)), F (Fin 0), F (Fin (1/2)), F (Fin 0),
                                   F (Fin (1/2)), F (Fin 0)]),
                (''cooling_sig'', [F (Fin 0), F (Fin 0), F (Fin 0), F (Fin 0), F (Fin 0), F (Fin 0)]),
                (''supply_vfd_speed'', [F (Fin (4/5)), F (Fin (4/5)), F (Fin (4/5)), F (Fin (4/5)),
                                        F (Fin (4/5)), F (Fin (4/5))])]\<rparr>"

text \<open>Two rows in consecutive hours, both in heating mode.\<close>

definition ex_two_hours :: table where
  "ex_two_hours = \<lparr>tindex = [3000, 4000],
     columns = [(''economizer_sig'', [F (Fin (1/5)), F (Fin (1/5))]),
                (''heating_sig'', [F (Fin (1/2)), F (Fin (1/2))]),
                (''cooling_sig'', [F (Fin 0), F (Fin 0)]),
                (''supply_vfd_speed'', [F (Fin (4/5)), F (Fin (4/5))])]\<rparr>"

text \<open>Sixteen rows three minutes apart, all in one hour. Heating and cooling are off and the
  damper is at its minimum, so no row is in any of the four modes; the fan speed moves
  between full speed and nine tenths of it.\<close>

definition ex_fan :: table where
  "ex_fan = \<lparr>tindex = [0, 180, 360, 540, 720, 900, 1080, 1260, 1440, 1620, 1800, 1980, 2160, 2340, 2520, 2700],
     columns = [(''economizer_sig'', [F (Fin (1/5)), F (Fin (1/5)), F (Fin (1/5)), F (Fin (1/5)), F (Fin (1/5)), F (Fin (1/5)), F (Fin (1/5)), F (Fin (1/5)), F (Fin (1/5)), F (Fin (1/5)), F (Fin (1/5)), F (Fin (1/5)), F (Fin (1/5)), F (Fin (1/5)), F (Fin (1/5)), F (Fin (1/5))]),
                (''heating_sig'', [F (Fin 0), F (Fin 0), F (Fin 0), F (Fin 0), F (Fin 0), F (Fin 0), F (Fin 0), F (Fin 0), F (Fin 0), F (Fin 0), F (Fin 0), F (Fin 0), F (Fin 0), F (Fin 0), F (Fin 0), F (Fin 0)]),
                (''cooling_sig'', [F (Fin 0), F (Fin 0), F (Fin 0), F (Fin 0), F (Fin 0), F (Fin 0), F (Fin 0), F (Fin 0), F (Fin 0), F (Fin 0), F (Fin 0), F (Fin 0), F (Fin 0), F (Fin 0), F (Fin 0), F (Fin 0)]),
                (''supply_vfd_speed'', [F (Fin 1), F (Fin (9/10)), F (Fin 1), F (Fin (9/10)), F (Fin 1), F (Fin (9/10)), F (Fin 1), F (Fin (9/10)), F (Fin 1), F (Fin (9/10)), F (Fin 1), F (Fin (9/10)), F (Fin 1), F (Fin (9/10)), F (Fin 1), F (Fin (9/10))])]\<rparr>"

section \<open>Properties of float64 rounding\<close>

lemma rhe_of_int: "round_half_even (of_int n) = n"
  by (simp add: round_half_even_def)

lemma rhe_bounds: "\<lfloor>q\<rfloor> \<le> round_half_even q" "round_half_even q \<le> \<lfloor>q\<rfloor> + 1"
  by (simp_all add: round_half_even_def)

lemma rhe_mono:
  assumes "q \<le> q'"
  shows "round_half_even q \<le> round_half_even q'"
proof (cases "\<lfloor>q\<rfloor> = \<lfloor>q'\<rfloor>")
  case True
  then show ?thesis
    using assms by (auto simp: round_half_even_def)
next
  case False
  then have "\<lfloor>q\<rfloor> + 1 \<le> \<lfloor>q'\<rfloor>"
    using floor_mono [OF assms] by linarith
  then show ?thesis
    using rhe_bounds(2) [of q] rhe_bounds(1) [of q'] by linarith
qed

lemma rhe_neg: "round_half_even (- q) = - round_half_even q"
proof (cases "q = of_int \<lfloor>q\<rfloor>")
  case True
  then obtain n where "q = of_int n" by blast
  then show ?thesis
    using rhe_of_int [of n] rhe_of_int [of "- n"] by simp
next
  case False
  then have f: "\<lfloor>- q\<rfloor> = - \<lfloor>q\<rfloor> - 1"
    by (simp add: floor_minus ceiling_altdef)
  show ?thesis
    unfolding round_half_even_def f by auto
qed

lemma ulp_exponent_neg: "ulp_exponent (- x) = ulp_exponent x"
  by (simp add: ulp_exponent_def)

lemma round_to_ulp_neg: "round_to_ulp (- x) = - round_to_ulp x"
  by (simp add: round_to_ulp_def ulp_exponent_neg rhe_neg)

lemma round_to_ulp_0: "round_to_ulp 0 = 0"
  by (simp add: round_to_ulp_def round_half_even_def)

lemma binade_bounds:
  assumes "0 < x"
  shows "x < 2 powi (max \<lfloor>log 2 x\<rfloor> (- 1022) + 1)"
    and "- 1022 \<le> \<lfloor>log 2 x\<rfloor> \<Longrightarrow> 2 powi (max \<lfloor>log 2 x\<rfloor> (- 1022)) \<le> x"
proof -
  let ?k = "\<lfloor>log 2 x\<rfloor>"
  have "2 powr (of_int ?k) \<le> x \<and> x < 2 powr (of_int ?k + 1)"
    using floor_log_eq_powr_iff [of x 2 ?k] assms by simp
  then have b: "2 powi ?k \<le> x" "x < 2 powi (?k + 1)"
    using powr_real_of_int' [of 2 ?k] powr_real_of_int' [of 2 "?k + 1"] by simp_all
  have "(2::real) powi (?k + 1) \<le> 2 powi (max ?k (- 1022) + 1)"
    by (rule power_int_increasing) simp_all
  with b show "x < 2 powi (max ?k (- 1022) + 1)" by linarith
  assume "- 1022 \<le> ?k"
  then have "max ?k (- 1022) = ?k" by simp
  with b show "2 powi (max ?k (- 1022)) \<le> x" by simp
qed

lemma round_to_ulp_pos_bounds:
  assumes "0 < x"
  shows "round_to_ulp x \<le> 2 powi (max \<lfloor>log 2 x\<rfloor> (- 1022) + 1)"
    and "- 1022 \<le> \<lfloor>log 2 x\<rfloor> \<Longrightarrow> 2 powi (max \<lfloor>log 2 x\<rfloor> (- 1022)) \<le> round_to_ulp x"
    and "0 \<le> round_to_ulp x"
proof -
  let ?k = "max \<lfloor>log 2 x\<rfloor> (- 1022)"
  let ?u = "(2::real) powi (?k - 52)"
  have e: "ulp_exponent x = ?k - 52"
    using assms by (simp add: ulp_exponent_def)
  have u: "0 < ?u" by simp
  have hi: "(2::real) powi (?k + 1) = of_int (2 ^ 53) * ?u"
    by (simp add: power_int_diff power_int_add)
  have lo: "(2::real) powi ?k = of_int (2 ^ 52) * ?u"
    by (simp add: power_int_diff)
  have "x / ?u \<le> of_int (2 ^ 53)"
    using binade_bounds(1) [OF assms] u unfolding hi by (simp add: field_simps)
  from rhe_mono [OF this] have "round_half_even (x / ?u) \<le> 2 ^ 53"
    unfolding rhe_of_int .
  then have "of_int (round_half_even (x / ?u)) * ?u \<le> of_int (2 ^ 53) * ?u"
    using u by (simp only: mult_le_cancel_right_pos of_int_le_iff)
  then show "round_to_ulp x \<le> 2 powi (?k + 1)"
    unfolding round_to_ulp_def e hi .
  have "of_int 0 \<le> x / ?u"
    using assms u by simp
  from rhe_mono [OF this] have "0 \<le> round_half_even (x / ?u)"
    unfolding rhe_of_int .
  then show "0 \<le> round_to_ulp x"
    unfolding round_to_ulp_def e using u by simp
  assume "- 1022 \<le> \<lfloor>log 2 x\<rfloor>"
  from binade_bounds(2) [OF assms this] have "of_int (2 ^ 52) \<le> x / ?u"
    using u unfolding lo by (simp add: field_simps)
  from rhe_mono [OF this] have "2 ^ 52 \<le> round_half_even (x / ?u)"
    unfolding rhe_of_int .
  then have "of_int (2 ^ 52) * ?u \<le> of_int (round_half_even (x / ?u)) * ?u"
    using u by (simp only: mult_le_cancel_right_pos of_int_le_iff)
  then show "2 powi ?k \<le> round_to_ulp x"
    unfolding round_to_ulp_def e lo .
qed

lemma round_to_ulp_mono_pos:
  assumes "0 < x" and "x \<le> y"
  shows "round_to_ulp x \<le> round_to_ulp y"
proof -
  let ?kx = "max \<lfloor>log 2 x\<rfloor> (- 1022)"
  let ?ky = "max \<lfloor>log 2 y\<rfloor> (- 1022)"
  have y: "0 < y" using assms by linarith
  have "log 2 x \<le> log 2 y"
    using assms y by simp
  then have fl: "\<lfloor>log 2 x\<rfloor> \<le> \<lfloor>log 2 y\<rfloor>"
    by (rule floor_mono)
  then have k: "?kx \<le> ?ky" by simp
  have ex: "ulp_exponent x = ?kx - 52" using assms by (simp add: ulp_exponent_def)
  have ey: "ulp_exponent y = ?ky - 52" using y by (simp add: ulp_exponent_def)
  show ?thesis
  proof (cases "?kx = ?ky")
    case True
    have "x / 2 powi (?ky - 52) \<le> y / 2 powi (?ky - 52)"
      using assms(2) by (simp add: divide_right_mono)
    from rhe_mono [OF this] show ?thesis
      unfolding round_to_ulp_def ex ey True
      by (simp add: mult_right_mono)
  next
    case False
    with k have lt: "?kx + 1 \<le> ?ky" by linarith
    then have n: "- 1022 \<le> \<lfloor>log 2 y\<rfloor>" by linarith
    have "round_to_ulp x \<le> 2 powi (?kx + 1)"
      by (rule round_to_ulp_pos_bounds(1) [OF assms(1)])
    also have "\<dots> \<le> 2 powi ?ky"
      using lt by (intro power_int_increasing) simp_all
    also have "\<dots> \<le> round_to_ulp y"
      by (rule round_to_ulp_pos_bounds(2) [OF y n])
    finally show ?thesis .
  qed
qed

lemma round_to_ulp_mono:
  assumes "x \<le> y"
  shows "round_to_ulp x \<le> round_to_ulp y"
proof -
  consider "0 < x" | "x \<le> 0" "0 \<le> y" | "y < 0"
    using assms by linarith
  then show ?thesis
  proof cases
    case 1
    then show ?thesis using assms by (rule round_to_ulp_mono_pos)
  next
    case 2
    have "round_to_ulp x \<le> 0"
    proof (cases "x = 0")
      case True then show ?thesis by (simp add: round_to_ulp_0)
    next
      case False
      with 2 have "0 < - x" by simp
      from round_to_ulp_pos_bounds(3) [OF this] show ?thesis
        by (simp add: round_to_ulp_neg)
    qed
    moreover have "0 \<le> round_to_ulp y"
    proof (cases "y = 0")
      case True then show ?thesis by (simp add: round_to_ulp_0)
    next
      case False
      with 2 have "0 < y" by simp
      then show ?thesis by (rule round_to_ulp_pos_bounds(3))
    qed
    ultimately show ?thesis by linarith
  next
    case 3
    then have "0 < - y" "- y \<le> - x" using assms by simp_all
    from round_to_ulp_mono_pos [OF this] show ?thesis
      by (simp add: round_to_ulp_neg)
  qed
qed

lemma max_float_pos: "0 < max_float"
  unfolding max_float_def by (intro mult_pos_pos zero_less_power) simp_all

lemma fl_not_NaN: "fl x \<noteq> NaN"
  by (simp add: fl_def)

lemma fl_mono:
  assumes "x \<le> y"
  shows "fle (fl x) (fl y)"
  using round_to_ulp_mono [OF assms] max_float_pos
  by (auto simp: fl_def)

lemma flt_irrefl: "\<not> flt a a"
  by (cases a) simp_all

lemma flt_NaN_right: "\<not> flt a NaN"
  by (cases a) simp_all

lemma flt_trans: "flt a b \<Longrightarrow> flt b c \<Longrightarrow> flt a c"
  by (cases a; cases b; cases c) simp_all

lemma fle_flt_trans: "fle a b \<Longrightarrow> flt b c \<Longrightarrow> flt a c"
  by (cases a; cases b; cases c) simp_all

lemma flt_fle_trans: "flt a b \<Longrightarrow> fle b c \<Longrightarrow> flt a c"
  by (cases a; cases b; cases c) simp_all


lemma fle_antisym: "fle a b \<Longrightarrow> fle b a \<Longrightarrow> a = b"
  by (cases a; cases b) simp_all

lemma fle_iff: "a \<noteq> NaN \<Longrightarrow> b \<noteq> NaN \<Longrightarrow> fle a b \<longleftrightarrow> \<not> flt b a"
  by (cases a; cases b) simp_all

lemma fle_total: "a \<noteq> NaN \<Longrightarrow> b \<noteq> NaN \<Longrightarrow> fle a b \<or> fle b a"
  by (cases a; cases b) auto

lemma np_maximum_fle: "fle a b \<Longrightarrow> np_maximum a b = b" "fle b a \<Longrightarrow> np_maximum a b = a"
  by (cases a; cases b; auto)+


lemma np_maximum_fl: "np_maximum (fl a) (fl b) = fl (max a b)"
proof (cases "a \<le> b")
  case True
  then show ?thesis using np_maximum_fle(1) [OF fl_mono [OF True]] by (simp add: max_def)
next
  case False
  then have "b \<le> a" by simp
  from np_maximum_fle(2) [OF fl_mono [OF this]] False show ?thesis by (simp add: max_def)
qed


lemma np_minimum_NaN_right: "np_minimum a NaN = NaN"
  by (cases a) simp_all

lemma np_maximum_NaN_right: "np_maximum a NaN = NaN"
  by (cases a) simp_all

lemma fadd_NaN_right: "fadd a NaN = NaN"
  by (cases a) simp_all

lemma flt_np_minimumD: "flt x (np_minimum a b) \<Longrightarrow> flt x a"
  by (cases a; cases b; cases x) (auto split: if_splits)

lemma flt_np_maximumD: "flt (np_maximum a b) x \<Longrightarrow> flt a x"
  by (cases a; cases b; cases x) (auto split: if_splits)


lemma ulp_exponent_le:
  assumes "x \<noteq> 0" and "\<bar>x\<bar> < 2 powi (e + 53)" and "- 1074 \<le> e"
  shows "ulp_exponent x \<le> e"
proof -
  have x: "0 < \<bar>x\<bar>" using assms(1) by simp
  let ?k = "\<lfloor>log 2 \<bar>x\<bar>\<rfloor>"
  have "2 powr (of_int ?k) \<le> \<bar>x\<bar>"
    using floor_log_eq_powr_iff [of "\<bar>x\<bar>" 2 ?k] x by simp
  then have "2 powi ?k \<le> \<bar>x\<bar>"
    using powr_real_of_int' [of 2 ?k] by simp
  with assms(2) have lt: "(2::real) powi ?k < 2 powi (e + 53)" by linarith
  have "?k < e + 53"
  proof (rule ccontr)
    assume "\<not> ?k < e + 53"
    then have "e + 53 \<le> ?k" by simp
    then have "(2::real) powi (e + 53) \<le> 2 powi ?k"
      by (rule power_int_increasing) simp
    with lt show False by linarith
  qed
  then show ?thesis
    using assms(3) by (simp add: ulp_exponent_def)
qed

lemma round_to_ulp_exact:
  assumes "x = of_int m * 2 powi e" and "\<bar>m\<bar> < 2 ^ 53" and "- 1074 \<le> e"
  shows "round_to_ulp x = x"
proof (cases "x = 0")
  case True
  then show ?thesis by (simp add: round_to_ulp_0)
next
  case False
  define u where "u = ulp_exponent x"
  have "\<bar>x\<bar> = of_int \<bar>m\<bar> * 2 powi e"
    by (simp add: assms(1) abs_mult)
  also have "\<dots> < of_int (2 ^ 53) * 2 powi e"
    using assms(2) by (simp only: mult_less_cancel_right_pos zero_less_power_int of_int_less_iff
        zero_less_numeral)
  also have "\<dots> = 2 powi (e + 53)"
    by (simp add: power_int_add)
  finally have "u \<le> e"
    unfolding u_def using ulp_exponent_le [OF False _ assms(3)] by simp
  then obtain d where d: "e = u + int d"
    using zle_iff_zadd by blast
  have p: "(2::real) powi e = 2 ^ d * 2 powi u"
    by (simp add: d power_int_add)
  have "x / 2 powi u = of_int (m * 2 ^ d)"
    unfolding assms(1) p by simp
  then have "round_half_even (x / 2 powi u) = m * 2 ^ d"
    by (simp only: rhe_of_int)
  then have "round_to_ulp x = of_int (m * 2 ^ d) * 2 powi u"
    by (simp add: round_to_ulp_def u_def)
  also have "\<dots> = of_int m * 2 powi e"
    unfolding p by simp
  finally show ?thesis
    by (simp only: assms(1))
qed

lemma max_float_powi: "max_float = (2 ^ 53 - 1) * 2 powi 971"
  unfolding max_float_def by (simp only: power_int_numeral)

lemma fl_exact:
  assumes "x = of_int m * 2 powi e" and "\<bar>m\<bar> < 2 ^ 53" and "- 1074 \<le> e" and "e \<le> 971"
  shows "fl x = Fin x"
proof -
  have r: "round_to_ulp x = x"
    by (rule round_to_ulp_exact [OF assms(1,2,3)])
  have "\<bar>m\<bar> \<le> 2 ^ 53 - 1" using assms(2) by simp
  then have "real_of_int \<bar>m\<bar> \<le> real_of_int (2 ^ 53 - 1)"
    by (simp only: of_int_le_iff)
  then have m: "real_of_int \<bar>m\<bar> \<le> 2 ^ 53 - 1"
    by simp
  have p: "(2::real) powi e \<le> 2 powi 971"
    using assms(4) by (rule power_int_increasing) simp
  have "\<bar>x\<bar> = of_int \<bar>m\<bar> * 2 powi e"
    by (simp add: assms(1) abs_mult)
  also have "\<dots> \<le> (2 ^ 53 - 1) * 2 powi 971"
    using m p by (rule mult_mono) simp_all
  finally have "\<bar>x\<bar> \<le> max_float"
    by (simp only: max_float_powi)
  then have "\<not> max_float < x" "\<not> x < - max_float"
    by linarith+
  then show ?thesis
    by (simp add: fl_def r)
qed

lemma fl_of_int:
  assumes "\<bar>n\<bar> < 2 ^ 53"
  shows "fl (of_int n) = Fin (of_int n)"
  using fl_exact [of "of_int n" n 0] assms by simp



lemma fl_small_ints:
  "fl 44 = Fin 44" "fl 45 = Fin 45" "fl 49 = Fin 49" "fl 50 = Fin 50" "fl 55 = Fin 55"
  "fl 60 = Fin 60" "fl 70 = Fin 70" "fl 74 = Fin 74" "fl 75 = Fin 75" "fl 80 = Fin 80"
  using fl_of_int [of 44] fl_of_int [of 45] fl_of_int [of 49] fl_of_int [of 50] fl_of_int [of 55]
    fl_of_int [of 60] fl_of_int [of 70] fl_of_int [of 74] fl_of_int [of 75] fl_of_int [of 80]
  by simp_all

section \<open>Properties of the threshold rules\<close>

lemma nth_fc2: "i < length df \<Longrightarrow> fault_condition_two df ! i = fc2_row (df ! i)"
  by (simp add: fault_condition_two_def)

lemma nth_fc3: "i < length df \<Longrightarrow> fault_condition_three df ! i = fc3_row (df ! i)"
  by (simp add: fault_condition_three_def)


lemma fc3_fin_row:
  "fc3_row (fin_row m r out tm tr tout)
   \<longleftrightarrow> flt (fl (max (r + tr) (out + tout))) (fl (m - tm))"
  by (simp add: fc3_row_def fin_row_def fsub_def fgt_def np_maximum_fl)





text \<open>
  Claim C6. With the script's thresholds (mix 5, return 2, outdoor 5), FC3 is true on the
  row mixed-air 85, return-air 72, outside-air 55 (scenario A) and false on the row
  mixed-air 60, return-air 72, outside-air 45 (scenario B).
\<close>

theorem fc3_scenarios_A_B:
  "fault_condition_three
     [script_row (Fin 85) (Fin 72) (Fin 55), script_row (Fin 60) (Fin 72) (Fin 45)]
   = [True, False]"
  by (simp add: fault_condition_three_def fc3_row_def script_row_def fgt_def fsub_def
      MIX_DEGF_ERR_THRES_def RETURN_DEGF_ERR_THRES_def OUTDOOR_DEGF_ERR_THRES_def fl_small_ints)

lemma fc2_row_NaN:
  "mat r = NaN \<or> rat r = NaN \<or> oat r = NaN \<Longrightarrow> \<not> fc2_row r"
  by (auto simp: fc2_row_def fsub_def np_minimum_NaN_right flt_NaN_right)

lemma fc3_row_NaN:
  "mat r = NaN \<or> rat r = NaN \<or> oat r = NaN \<Longrightarrow> \<not> fc3_row r"
  by (auto simp: fc3_row_def fsub_def fgt_def np_maximum_NaN_right flt_NaN_right)

text \<open>
  Claim C7. On every row in which the mixed-air, return-air or outside-air temperature is
  NaN, both FC2 and FC3 evaluate to false. The two functions are total: they return one
  boolean per row and have no error result.
\<close>

theorem fc2_fc3_NaN_not_flagged:
  assumes "i < length df"
    and "mat (df ! i) = NaN \<or> rat (df ! i) = NaN \<or> oat (df ! i) = NaN"
  shows "length (fault_condition_two df) = length df
       \<and> length (fault_condition_three df) = length df
       \<and> \<not> fault_condition_two df ! i \<and> \<not> fault_condition_three df ! i"
  using assms
  by (simp add: nth_fc2 nth_fc3 fc2_row_NaN fc3_row_NaN fault_condition_two_def fault_condition_three_def)

theorem fc2_fc3_NaN_not_flagged_witness:
  "fault_condition_two [script_row NaN (Fin 72) (Fin 55), script_row (Fin 20) NaN (Fin 55),
        script_row (Fin 20) (Fin 72) NaN] = [False, False, False]
   \<and> fault_condition_three [script_row NaN (Fin 72) (Fin 55), script_row (Fin 95) NaN (Fin 55),
        script_row (Fin 95) (Fin 72) NaN] ! 1 = False"
proof -
  let ?d = "[script_row NaN (Fin 72) (Fin 55), script_row (Fin 95) NaN (Fin 55),
        script_row (Fin 95) (Fin 72) NaN]"
  have l: "1 < length ?d" by simp
  have n: "mat (?d ! 1) = NaN \<or> rat (?d ! 1) = NaN \<or> oat (?d ! 1) = NaN"
    by (simp add: script_row_def)
  have "\<not> fault_condition_three ?d ! 1"
    using fc2_fc3_NaN_not_flagged [OF l n] by blast
  moreover have "fault_condition_two [script_row NaN (Fin 72) (Fin 55), script_row (Fin 20) NaN (Fin 55),
        script_row (Fin 20) (Fin 72) NaN] = [False, False, False]"
    by (simp add: fault_condition_two_def fc2_row_def script_row_def fsub_def
        flt_NaN_right np_minimum_NaN_right)
  ultimately show ?thesis by simp
qed

lemma fsub_fle_fadd:
  assumes "0 \<le> t" and "a \<noteq> NaN"
  shows "fle (fsub a (Fin t)) (fadd a (Fin t))"
proof (cases a)
  case (Fin x)
  have "x + - t \<le> x + t" using assms(1) by simp
  from fl_mono [OF this] show ?thesis by (simp add: Fin fsub_def)
qed (use assms(2) in \<open>simp_all add: fsub_def\<close>)

lemma fadd_NaN_left: "fadd NaN b = NaN"
  by simp

lemma fc2_fc3_row_exclusive:
  assumes "0 \<le> tm" "0 \<le> tr" "0 \<le> tout"
    and "mix_degf_err_thres r = Fin tm" "return_degf_err_thres r = Fin tr"
        "outdoor_degf_err_thres r = Fin tout"
  shows "\<not> (fc2_row r \<and> fc3_row r)"
proof
  assume b: "fc2_row r \<and> fc3_row r"
  from b have 2: "flt (fadd (mat r) (Fin tm)) (fsub (rat r) (Fin tr))"
    unfolding fc2_row_def assms(4-6) by (blast dest: flt_np_minimumD)
  from b have 3: "flt (fadd (rat r) (Fin tr)) (fsub (mat r) (Fin tm))"
    unfolding fc3_row_def fgt_def assms(4-6) by (blast dest: flt_np_maximumD)
  have m: "mat r \<noteq> NaN"
    using 2 by (auto simp: fadd_NaN_left)
  have r: "rat r \<noteq> NaN"
    using 3 by (auto simp: fadd_NaN_left)
  note fle_flt_trans [OF fsub_fle_fadd [OF assms(1) m] 2]
  note flt_fle_trans [OF this fsub_fle_fadd [OF assms(2) r]]
  note flt_trans [OF this 3]
  then show False by (simp add: flt_irrefl)
qed

text \<open>
  Claim C10. On every row whose three thresholds are finite and non-negative, FC2 and FC3
  are never both true. (The temperatures may be any float, so in particular any finite
  one.)
\<close>

theorem fc2_fc3_mutually_exclusive:
  assumes "i < length df"
    and "mix_degf_err_thres (df ! i) = Fin tm" and "0 \<le> tm"
    and "return_degf_err_thres (df ! i) = Fin tr" and "0 \<le> tr"
    and "outdoor_degf_err_thres (df ! i) = Fin tout" and "0 \<le> tout"
  shows "\<not> (fault_condition_two df ! i \<and> fault_condition_three df ! i)"
  using assms fc2_fc3_row_exclusive [of tm tr tout "df ! i"]
  by (simp add: nth_fc2 nth_fc3)

theorem fc2_fc3_mutually_exclusive_witness:
  "fault_condition_three [fin_row 85 72 55 5 2 5] ! 0
   \<and> \<not> fault_condition_two [fin_row 85 72 55 5 2 5] ! 0"
proof -
  let ?d = "[fin_row 85 72 55 5 2 5]"
  have l: "0 < length ?d" by simp
  have t: "mix_degf_err_thres (?d ! 0) = Fin 5" "return_degf_err_thres (?d ! 0) = Fin 2"
          "outdoor_degf_err_thres (?d ! 0) = Fin 5"
    by (simp_all add: fin_row_def)
  have "\<not> (fault_condition_two ?d ! 0 \<and> fault_condition_three ?d ! 0)"
    using fc2_fc3_mutually_exclusive [OF l t(1) _ t(2) _ t(3)] by simp
  moreover have "fault_condition_three ?d ! 0"
    by (simp add: fault_condition_three_def fc3_fin_row fl_small_ints)
  ultimately show ?thesis by blast
qed

section \<open>Properties of the operating-mode classifier\<close>

lemma map_of_set_col: "map_of (set_col cs name v) = (map_of cs)(name \<mapsto> v)"
  by (induction cs name v rule: set_col.induct) auto

lemma getitem_setitem:
  "getitem (setitem df name v) m = (if m = name then Inr v else getitem df m)"
  by (simp add: getitem_def setitem_def map_of_set_col)

lemma tindex_setitem: "tindex (setitem df name v) = tindex df"
  by (simp add: setitem_def)

lemma get_signals_setitem:
  assumes "name \<notin> set (columns_to_check self)"
  shows "get_signals self (setitem df name v) = get_signals self df"
proof -
  from assms have "heating_sig_col self \<noteq> name" "cooling_sig_col self \<noteq> name"
    "supply_vfd_speed_col self \<noteq> name" "economizer_sig_col self \<noteq> name"
    by (auto simp: columns_to_check_def)
  then show ?thesis by (simp add: get_signals_def getitem_setitem split: sum.splits)
qed

lemma names_okD:
  "names_ok self \<Longrightarrow> name \<in> set mode_names \<Longrightarrow> name \<notin> set (columns_to_check self)"
  by (auto simp: names_ok_def list_all_iff)

lemma assign_modes_signals:
  assumes "assign_modes self df = (d, None)"
  shows "\<exists>htg clg fan econ. get_signals self df = Inr (htg, clg, fan, econ)"
  using assms by (cases "get_signals self df")
    (auto simp: assign_modes_def assign_def heating_mode_def)

lemma assign_modes_result:
  assumes ok: "names_ok self" and am: "assign_modes self df = (d, None)"
    and g: "get_signals self df = Inr (htg, clg, fan, econ)"
  shows "d = setitem (setitem (setitem (setitem df
           ''heating_mode'' (map B (s_and (s_and (s_and (s_gt htg 0) (s_eq clg 0)) (s_gt fan 0)) (s_eq econ (ahu_min_oa_dpr self)))))
           ''econ_only_cooling_mode'' (map B (s_and (s_and (s_and (s_eq htg 0) (s_eq clg 0)) (s_gt fan 0)) (s_gt econ (ahu_min_oa_dpr self)))))
           ''econ_plus_mech_cooling_mode'' (map B (s_and (s_and (s_and (s_eq htg 0) (s_gt clg 0)) (s_gt fan 0)) (s_gt econ (ahu_min_oa_dpr self)))))
           ''mech_cooling_only_mode'' (map B (s_and (s_and (s_and (s_eq htg 0) (s_gt clg 0)) (s_gt fan 0)) (s_eq econ (ahu_min_oa_dpr self))))"
proof -
  have n: "''heating_mode'' \<notin> set (columns_to_check self)"
          "''econ_only_cooling_mode'' \<notin> set (columns_to_check self)"
          "''econ_plus_mech_cooling_mode'' \<notin> set (columns_to_check self)"
          "''mech_cooling_only_mode'' \<notin> set (columns_to_check self)"
    using names_okD [OF ok] by (simp_all add: mode_names_def)
  show ?thesis
    using am g n
    by (simp add: assign_modes_def assign_def heating_mode_def econ_only_cooling_mode_def
        econ_plus_mech_cooling_mode_def mech_cooling_only_mode_def get_signals_setitem)
qed

lemma length_s_and: "length (s_and x y) = min (length x) (length y)"
  by (simp add: s_and_def)

lemma nth_s_and: "i < length x \<Longrightarrow> i < length y \<Longrightarrow> s_and x y ! i = (x ! i \<and> y ! i)"
  by (simp add: s_and_def)

lemma mode_at_setitem:
  "mode_at (setitem df name v) m i =
     (if m = name then i < length v \<and> v ! i = B True else mode_at df m i)"
  by (simp add: mode_at_def getitem_setitem)

lemma nth_B4:
  "i < length (map B (s_and (s_and (s_and a b) c) e)) \<and>
   map B (s_and (s_and (s_and a b) c) e) ! i = B True \<longleftrightarrow>
   i < length a \<and> i < length b \<and> i < length c \<and> i < length e \<and> a ! i \<and> b ! i \<and> c ! i \<and> e ! i"
  by (auto simp: length_s_and nth_s_and)

lemma feq_not_fgt: "feq a b \<Longrightarrow> \<not> fgt a b"
  by (cases a; cases b) (auto simp: fgt_def)

lemma mode_at_assign_modes:
  assumes ok: "names_ok self" and am: "assign_modes self df = (d, None)"
    and g: "get_signals self df = Inr (htg, clg, fan, econ)"
  shows "mode_at d ''heating_mode'' i \<longleftrightarrow>
           i < length htg \<and> i < length clg \<and> i < length fan \<and> i < length econ \<and>
           fgt (cell_val (htg ! i)) (Fin 0) \<and> feq (cell_val (clg ! i)) (Fin 0) \<and>
           fgt (cell_val (fan ! i)) (Fin 0) \<and> feq (cell_val (econ ! i)) (Fin (ahu_min_oa_dpr self))"
    and "mode_at d ''econ_only_cooling_mode'' i \<longleftrightarrow>
           i < length htg \<and> i < length clg \<and> i < length fan \<and> i < length econ \<and>
           feq (cell_val (htg ! i)) (Fin 0) \<and> feq (cell_val (clg ! i)) (Fin 0) \<and>
           fgt (cell_val (fan ! i)) (Fin 0) \<and> fgt (cell_val (econ ! i)) (Fin (ahu_min_oa_dpr self))"
    and "mode_at d ''econ_plus_mech_cooling_mode'' i \<longleftrightarrow>
           i < length htg \<and> i < length clg \<and> i < length fan \<and> i < length econ \<and>
           feq (cell_val (htg ! i)) (Fin 0) \<and> fgt (cell_val (clg ! i)) (Fin 0) \<and>
           fgt (cell_val (fan ! i)) (Fin 0) \<and> fgt (cell_val (econ ! i)) (Fin (ahu_min_oa_dpr self))"
    and "mode_at d ''mech_cooling_only_mode'' i \<longleftrightarrow>
           i < length htg \<and> i < length clg \<and> i < length fan \<and> i < length econ \<and>
           feq (cell_val (htg ! i)) (Fin 0) \<and> fgt (cell_val (clg ! i)) (Fin 0) \<and>
           fgt (cell_val (fan ! i)) (Fin 0) \<and> feq (cell_val (econ ! i)) (Fin (ahu_min_oa_dpr self))"
proof -
  note d = assign_modes_result [OF ok am g]
  show "mode_at d ''heating_mode'' i \<longleftrightarrow>
           i < length htg \<and> i < length clg \<and> i < length fan \<and> i < length econ \<and>
           fgt (cell_val (htg ! i)) (Fin 0) \<and> feq (cell_val (clg ! i)) (Fin 0) \<and>
           fgt (cell_val (fan ! i)) (Fin 0) \<and> feq (cell_val (econ ! i)) (Fin (ahu_min_oa_dpr self))"
    unfolding d mode_at_setitem nth_B4 by (auto simp: s_gt_def s_eq_def)
  show "mode_at d ''econ_only_cooling_mode'' i \<longleftrightarrow>
           i < length htg \<and> i < length clg \<and> i < length fan \<and> i < length econ \<and>
           feq (cell_val (htg ! i)) (Fin 0) \<and> feq (cell_val (clg ! i)) (Fin 0) \<and>
           fgt (cell_val (fan ! i)) (Fin 0) \<and> fgt (cell_val (econ ! i)) (Fin (ahu_min_oa_dpr self))"
    unfolding d mode_at_setitem nth_B4 by (auto simp: s_gt_def s_eq_def)
  show "mode_at d ''econ_plus_mech_cooling_mode'' i \<longleftrightarrow>
           i < length htg \<and> i < length clg \<and> i < length fan \<and> i < length econ \<and>
           feq (cell_val (htg ! i)) (Fin 0) \<and> fgt (cell_val (clg ! i)) (Fin 0) \<and>
           fgt (cell_val (fan ! i)) (Fin 0) \<and> fgt (cell_val (econ ! i)) (Fin (ahu_min_oa_dpr self))"
    unfolding d mode_at_setitem nth_B4 by (auto simp: s_gt_def s_eq_def)
  show "mode_at d ''mech_cooling_only_mode'' i \<longleftrightarrow>
           i < length htg \<and> i < length clg \<and> i < length fan \<and> i < length econ \<and>
           feq (cell_val (htg ! i)) (Fin 0) \<and> fgt (cell_val (clg ! i)) (Fin 0) \<and>
           fgt (cell_val (fan ! i)) (Fin 0) \<and> feq (cell_val (econ ! i)) (Fin (ahu_min_oa_dpr self))"
    unfolding d mode_at_setitem nth_B4 by (auto simp: s_gt_def s_eq_def)
qed

lemmas modes_eval = assign_modes_def assign_def heating_mode_def econ_only_cooling_mode_def
  econ_plus_mech_cooling_mode_def mech_cooling_only_mode_def get_signals_def getitem_def
  setitem_def s_and_def s_gt_def s_eq_def fgt_def

lemma names_ok_ex_cfg: "names_ok ex_cfg"
  by (simp add: names_ok_def ex_cfg_def columns_to_check_def mode_names_def)

lemma assign_modes_ex_rows:
  "assign_modes ex_cfg ex_rows =
     (ex_rows\<lparr>columns := columns ex_rows @
        [(''heating_mode'', [B True, B False, B False]),
         (''econ_only_cooling_mode'', [B False, B False, B False]),
         (''econ_plus_mech_cooling_mode'', [B False, B False, B False]),
         (''mech_cooling_only_mode'', [B False, B False, B False])]\<rparr>, None)"
  by (simp add: modes_eval ex_cfg_def ex_rows_def)

lemma get_signals_ex_rows:
  "get_signals ex_cfg ex_rows =
     Inr ([F (Fin (1/2)), F (Fin (1/2)), F (Fin (1/2))], [F (Fin 0), F (Fin 0), F (Fin (1/2))],
          [F (Fin (4/5)), F (Fin 0), F (Fin (4/5))], [F (Fin (1/5)), F (Fin (1/5)), F (Fin (1/5))])"
  by (simp add: get_signals_def getitem_def ex_cfg_def ex_rows_def)

lemma mode_atD:
  assumes "names_ok self" and "assign_modes self df = (d, None)"
    and "get_signals self df = Inr (htg, clg, fan, econ)"
  shows "mode_at d ''heating_mode'' i \<Longrightarrow>
           fgt (cell_val (htg ! i)) (Fin 0) \<and> feq (cell_val (clg ! i)) (Fin 0)
           \<and> fgt (cell_val (fan ! i)) (Fin 0)"
    and "mode_at d ''econ_only_cooling_mode'' i \<Longrightarrow>
           feq (cell_val (htg ! i)) (Fin 0) \<and> feq (cell_val (clg ! i)) (Fin 0)
           \<and> fgt (cell_val (fan ! i)) (Fin 0)"
    and "mode_at d ''econ_plus_mech_cooling_mode'' i \<Longrightarrow>
           feq (cell_val (htg ! i)) (Fin 0) \<and> fgt (cell_val (clg ! i)) (Fin 0)
           \<and> fgt (cell_val (fan ! i)) (Fin 0)
           \<and> fgt (cell_val (econ ! i)) (Fin (ahu_min_oa_dpr self))"
    and "mode_at d ''mech_cooling_only_mode'' i \<Longrightarrow>
           feq (cell_val (htg ! i)) (Fin 0) \<and> fgt (cell_val (clg ! i)) (Fin 0)
           \<and> fgt (cell_val (fan ! i)) (Fin 0)
           \<and> feq (cell_val (econ ! i)) (Fin (ahu_min_oa_dpr self))"
  by (simp_all add: mode_at_assign_modes [OF assms])

lemma mode_at_exclusive:
  assumes "names_ok self" and "assign_modes self df = (d, None)"
  shows "\<not> (mode_at d ''heating_mode'' i \<and> mode_at d ''econ_only_cooling_mode'' i)"
    and "\<not> (mode_at d ''heating_mode'' i \<and> mode_at d ''econ_plus_mech_cooling_mode'' i)"
    and "\<not> (mode_at d ''heating_mode'' i \<and> mode_at d ''mech_cooling_only_mode'' i)"
    and "\<not> (mode_at d ''econ_only_cooling_mode'' i \<and> mode_at d ''econ_plus_mech_cooling_mode'' i)"
    and "\<not> (mode_at d ''econ_only_cooling_mode'' i \<and> mode_at d ''mech_cooling_only_mode'' i)"
    and "\<not> (mode_at d ''econ_plus_mech_cooling_mode'' i \<and> mode_at d ''mech_cooling_only_mode'' i)"
proof -
  obtain htg clg fan econ where g: "get_signals self df = Inr (htg, clg, fan, econ)"
    using assign_modes_signals [OF assms(2)] by blast
  note m = mode_atD [OF assms g, of i]
  show "\<not> (mode_at d ''heating_mode'' i \<and> mode_at d ''econ_only_cooling_mode'' i)"
    using m(1,2) feq_not_fgt by blast
  show "\<not> (mode_at d ''heating_mode'' i \<and> mode_at d ''econ_plus_mech_cooling_mode'' i)"
    using m(1,3) feq_not_fgt by blast
  show "\<not> (mode_at d ''heating_mode'' i \<and> mode_at d ''mech_cooling_only_mode'' i)"
    using m(1,4) feq_not_fgt by blast
  show "\<not> (mode_at d ''econ_only_cooling_mode'' i \<and> mode_at d ''econ_plus_mech_cooling_mode'' i)"
    using m(2,3) feq_not_fgt by blast
  show "\<not> (mode_at d ''econ_only_cooling_mode'' i \<and> mode_at d ''mech_cooling_only_mode'' i)"
    using m(2,4) feq_not_fgt by blast
  show "\<not> (mode_at d ''econ_plus_mech_cooling_mode'' i \<and> mode_at d ''mech_cooling_only_mode'' i)"
    using m(3,4) feq_not_fgt by blast
qed

lemma mode_at_needs_fan:
  assumes "names_ok self" and "assign_modes self df = (d, None)"
    and "get_signals self df = Inr (htg, clg, fan, econ)"
    and "name \<in> set mode_names" and "mode_at d name i"
  shows "fgt (cell_val (fan ! i)) (Fin 0)"
  using assms(4,5) mode_atD [OF assms(1,2,3), of i]
  by (auto simp: mode_names_def)

lemma mode_at_not_both_on:
  assumes "names_ok self" and "assign_modes self df = (d, None)"
    and "get_signals self df = Inr (htg, clg, fan, econ)"
    and "name \<in> set mode_names" and "mode_at d name i"
  shows "\<not> (fgt (cell_val (htg ! i)) (Fin 0) \<and> fgt (cell_val (clg ! i)) (Fin 0))"
  using assms(4,5) mode_atD [OF assms(1,2,3), of i]
  by (auto simp: mode_names_def dest: feq_not_fgt)

lemma filter4_le1:
  assumes "\<not> (P a \<and> P b)" "\<not> (P a \<and> P c)" "\<not> (P a \<and> P e)"
          "\<not> (P b \<and> P c)" "\<not> (P b \<and> P e)" "\<not> (P c \<and> P e)"
  shows "length (filter P [a, b, c, e]) \<le> 1"
  using assms by (cases "P a"; cases "P b"; cases "P c"; cases "P e") simp_all

text \<open>
  Claim C3. Let \<open>d\<close> be the frame after lines 48 to 77 of \<^verbatim>\<open>apply\<close> have written the four
  mode-indicator columns. On every row \<open>i\<close> at most one of the four indicators is true. A
  row whose fan speed is not strictly positive, and a row whose heating and cooling
  signals are both strictly positive, has all four indicators false.
\<close>

theorem mode_indicators_mutually_exclusive:
  assumes "names_ok self" and "assign_modes self df = (d, None)"
  shows "length (filter (\<lambda>name. mode_at d name i) mode_names) \<le> 1
       \<and> (get_signals self df = Inr (htg, clg, fan, econ)
            \<and> \<not> fgt (cell_val (fan ! i)) (Fin 0)
          \<longrightarrow> filter (\<lambda>name. mode_at d name i) mode_names = [])
       \<and> (get_signals self df = Inr (htg, clg, fan, econ)
            \<and> fgt (cell_val (htg ! i)) (Fin 0) \<and> fgt (cell_val (clg ! i)) (Fin 0)
          \<longrightarrow> filter (\<lambda>name. mode_at d name i) mode_names = [])"
proof -
  have 1: "length (filter (\<lambda>name. mode_at d name i) mode_names) \<le> 1"
    unfolding mode_names_def
    by (rule filter4_le1) (rule mode_at_exclusive [OF assms])+
  have 2: "get_signals self df = Inr (htg, clg, fan, econ)
            \<and> \<not> fgt (cell_val (fan ! i)) (Fin 0)
          \<longrightarrow> filter (\<lambda>name. mode_at d name i) mode_names = []"
    using mode_at_needs_fan [OF assms] by (auto simp: filter_empty_conv)
  have 3: "get_signals self df = Inr (htg, clg, fan, econ)
            \<and> fgt (cell_val (htg ! i)) (Fin 0) \<and> fgt (cell_val (clg ! i)) (Fin 0)
          \<longrightarrow> filter (\<lambda>name. mode_at d name i) mode_names = []"
    using mode_at_not_both_on [OF assms] by (auto simp: filter_empty_conv)
  from 1 2 3 show ?thesis by blast
qed

theorem mode_indicators_mutually_exclusive_witness:
  "filter (\<lambda>name. mode_at (fst (assign_modes ex_cfg ex_rows)) name 0) mode_names = [''heating_mode'']
   \<and> length (filter (\<lambda>name. mode_at (fst (assign_modes ex_cfg ex_rows)) name 0) mode_names) \<le> 1
   \<and> filter (\<lambda>name. mode_at (fst (assign_modes ex_cfg ex_rows)) name 1) mode_names = []
   \<and> filter (\<lambda>name. mode_at (fst (assign_modes ex_cfg ex_rows)) name 2) mode_names = []"
proof -
  let ?htg = "[F (Fin (1/2)), F (Fin (1/2)), F (Fin (1/2))]"
  let ?clg = "[F (Fin 0), F (Fin 0), F (Fin (1/2))]"
  let ?fan = "[F (Fin (4/5)), F (Fin 0), F (Fin (4/5))]"
  let ?econ = "[F (Fin (1/5)), F (Fin (1/5)), F (Fin (1/5))]"
  have am: "assign_modes ex_cfg ex_rows = (fst (assign_modes ex_cfg ex_rows), None)"
    by (simp add: assign_modes_ex_rows)
  have g: "get_signals ex_cfg ex_rows = Inr (?htg, ?clg, ?fan, ?econ)"
    by (rule get_signals_ex_rows)
  have f1: "\<not> fgt (cell_val (?fan ! 1)) (Fin 0)"
    by (simp add: fgt_def)
  have f2: "fgt (cell_val (?htg ! 2)) (Fin 0) \<and> fgt (cell_val (?clg ! 2)) (Fin 0)"
    by (simp add: fgt_def)
  have 0: "filter (\<lambda>name. mode_at (fst (assign_modes ex_cfg ex_rows)) name 0) mode_names = [''heating_mode'']"
    unfolding assign_modes_ex_rows
    by (simp add: mode_at_def getitem_def ex_rows_def mode_names_def)
  have 1: "filter (\<lambda>name. mode_at (fst (assign_modes ex_cfg ex_rows)) name 1) mode_names = []"
    using mode_indicators_mutually_exclusive
      [OF names_ok_ex_cfg am, where i = 1 and htg = ?htg and clg = ?clg and fan = ?fan and econ = ?econ]
      g f1 by blast
  have 2: "filter (\<lambda>name. mode_at (fst (assign_modes ex_cfg ex_rows)) name 2) mode_names = []"
    using mode_indicators_mutually_exclusive
      [OF names_ok_ex_cfg am, where i = 2 and htg = ?htg and clg = ?clg and fan = ?fan and econ = ?econ]
      g f2 by blast
  have 3: "length (filter (\<lambda>name. mode_at (fst (assign_modes ex_cfg ex_rows)) name 0) mode_names) \<le> 1"
    using mode_indicators_mutually_exclusive
      [OF names_ok_ex_cfg am, where i = 0 and htg = ?htg and clg = ?clg and fan = ?fan and econ = ?econ]
    by blast
  from 0 1 2 3 show ?thesis by blast
qed

text \<open>
  Claim C4. On every row where the heating signal is strictly positive, the cooling signal
  equals zero, the fan speed is strictly positive and the economizer signal equals
  \<open>ahu_min_oa_dpr\<close>, the heating indicator is true and the other three are false. No
  indicator is true on a row whose fan speed is not strictly positive.
\<close>

theorem heating_only_row_and_fan_gate:
  assumes "names_ok self" and "assign_modes self df = (d, None)"
    and "get_signals self df = Inr (htg, clg, fan, econ)"
    and "i < length htg" and "i < length clg" and "i < length fan" and "i < length econ"
  shows "(fgt (cell_val (htg ! i)) (Fin 0) \<and> feq (cell_val (clg ! i)) (Fin 0)
            \<and> fgt (cell_val (fan ! i)) (Fin 0)
            \<and> feq (cell_val (econ ! i)) (Fin (ahu_min_oa_dpr self))
          \<longrightarrow> mode_at d ''heating_mode'' i
              \<and> \<not> mode_at d ''econ_only_cooling_mode'' i
              \<and> \<not> mode_at d ''econ_plus_mech_cooling_mode'' i
              \<and> \<not> mode_at d ''mech_cooling_only_mode'' i)
       \<and> (\<not> fgt (cell_val (fan ! i)) (Fin 0)
          \<longrightarrow> \<not> mode_at d ''heating_mode'' i
              \<and> \<not> mode_at d ''econ_only_cooling_mode'' i
              \<and> \<not> mode_at d ''econ_plus_mech_cooling_mode'' i
              \<and> \<not> mode_at d ''mech_cooling_only_mode'' i)"
proof -
  note x = mode_at_exclusive [OF assms(1,2), of i]
  note f = mode_at_needs_fan [OF assms(1,2,3), of _ i]
  have a: "fgt (cell_val (htg ! i)) (Fin 0) \<and> feq (cell_val (clg ! i)) (Fin 0)
            \<and> fgt (cell_val (fan ! i)) (Fin 0)
            \<and> feq (cell_val (econ ! i)) (Fin (ahu_min_oa_dpr self))
          \<longrightarrow> mode_at d ''heating_mode'' i"
    using assms(4-) by (simp add: mode_at_assign_modes [OF assms(1,2,3)])
  have b: "\<not> fgt (cell_val (fan ! i)) (Fin 0)
          \<longrightarrow> \<not> mode_at d ''heating_mode'' i
              \<and> \<not> mode_at d ''econ_only_cooling_mode'' i
              \<and> \<not> mode_at d ''econ_plus_mech_cooling_mode'' i
              \<and> \<not> mode_at d ''mech_cooling_only_mode'' i"
    using f by (auto simp: mode_names_def)
  from a b x show ?thesis by blast
qed

theorem heating_only_row_and_fan_gate_witness:
  "mode_at (fst (assign_modes ex_cfg ex_rows)) ''heating_mode'' 0
   \<and> \<not> mode_at (fst (assign_modes ex_cfg ex_rows)) ''econ_only_cooling_mode'' 0
   \<and> \<not> mode_at (fst (assign_modes ex_cfg ex_rows)) ''econ_plus_mech_cooling_mode'' 0
   \<and> \<not> mode_at (fst (assign_modes ex_cfg ex_rows)) ''mech_cooling_only_mode'' 0
   \<and> \<not> mode_at (fst (assign_modes ex_cfg ex_rows)) ''heating_mode'' 1"
proof -
  let ?htg = "[F (Fin (1/2)), F (Fin (1/2)), F (Fin (1/2))]"
  let ?clg = "[F (Fin 0), F (Fin 0), F (Fin (1/2))]"
  let ?fan = "[F (Fin (4/5)), F (Fin 0), F (Fin (4/5))]"
  let ?econ = "[F (Fin (1/5)), F (Fin (1/5)), F (Fin (1/5))]"
  have am: "assign_modes ex_cfg ex_rows = (fst (assign_modes ex_cfg ex_rows), None)"
    by (simp add: assign_modes_ex_rows)
  have g: "get_signals ex_cfg ex_rows = Inr (?htg, ?clg, ?fan, ?econ)"
    by (rule get_signals_ex_rows)
  have l0: "0 < length ?htg" "0 < length ?clg" "0 < length ?fan" "0 < length ?econ"
    by simp_all
  have l1: "1 < length ?htg" "1 < length ?clg" "1 < length ?fan" "1 < length ?econ"
    by simp_all
  have r0: "fgt (cell_val (?htg ! 0)) (Fin 0) \<and> feq (cell_val (?clg ! 0)) (Fin 0)
            \<and> fgt (cell_val (?fan ! 0)) (Fin 0)
            \<and> feq (cell_val (?econ ! 0)) (Fin (ahu_min_oa_dpr ex_cfg))"
    by (simp add: fgt_def ex_cfg_def)
  have r1: "\<not> fgt (cell_val (?fan ! 1)) (Fin 0)"
    by (simp add: fgt_def)
  have a: "mode_at (fst (assign_modes ex_cfg ex_rows)) ''heating_mode'' 0
   \<and> \<not> mode_at (fst (assign_modes ex_cfg ex_rows)) ''econ_only_cooling_mode'' 0
   \<and> \<not> mode_at (fst (assign_modes ex_cfg ex_rows)) ''econ_plus_mech_cooling_mode'' 0
   \<and> \<not> mode_at (fst (assign_modes ex_cfg ex_rows)) ''mech_cooling_only_mode'' 0"
    using heating_only_row_and_fan_gate [OF names_ok_ex_cfg am g l0] r0 by blast
  have b: "\<not> mode_at (fst (assign_modes ex_cfg ex_rows)) ''heating_mode'' 1"
    using heating_only_row_and_fan_gate [OF names_ok_ex_cfg am g l1] r1 by blast
  from a b show ?thesis by blast
qed

section \<open>Properties of apply\<close>

lemma check_loop_Some:
  "c \<in> set cs \<Longrightarrow> chk t [c] = Some e \<Longrightarrow>
     \<exists>e'. check_loop chk t cs = Some e' \<and> (\<exists>c'\<in>set cs. chk t [c'] = Some e')"
  by (induction cs) (auto split: option.splits)

lemma check_loop_SomeD:
  "check_loop chk t cs = Some e \<Longrightarrow> \<exists>c\<in>set cs. chk t [c] = Some e"
  by (induction cs) (auto split: option.splits)

lemma alloc_twice:
  "(case alloc h1 t of (h2, df2) \<Rightarrow>
      case alloc h2 (resample_h_apply (h2 ! df2)) of (h3, df3) \<Rightarrow>
        (h3[df3 := set_fc4_flag self (h3 ! df3)], (Inr df3 :: error + nat)))
   = (h1 @ [t, set_fc4_flag self (resample_h_apply t)], Inr (Suc (length h1)))"
proof -
  have "((h1 @ [t]) @ [resample_h_apply t])[length (h1 @ [t]) := x] = (h1 @ [t]) @ [x]" for x
    by (rule list_update_length)
  moreover have "((h1 @ [t]) @ [resample_h_apply t]) ! length (h1 @ [t]) = resample_h_apply t"
    by (rule nth_append_length)
  moreover have "(h1 @ [t]) ! length h1 = t"
    by (rule nth_append_length)
  ultimately show ?thesis
    by (simp add: alloc_def)
qed

lemma apply_eq:
  "FaultConditionFour_apply self chk h df =
     (case check_loop chk (h ! df) (columns_to_check self) of
        Some e \<Rightarrow> (h, Inl e)
      | None \<Rightarrow>
         (case assign_modes self (h ! df) of
            (d, Some e) \<Rightarrow> (h[df := d], Inl e)
          | (d, None) \<Rightarrow>
             (case astype_int (h[df := d] ! df) of
                Inl e \<Rightarrow> (h[df := d], Inl e)
              | Inr t \<Rightarrow> (h[df := d] @ [t, set_fc4_flag self (resample_h_apply t)],
                           Inr (Suc (length h))))))"
proof -
  have h0: "(if troubleshoot_mode self then h[df := troubleshoot_cols (h ! df)] else h) = h"
    by (simp add: troubleshoot_cols_def)
  show ?thesis
    unfolding FaultConditionFour_apply_def Let_def h0
    by (simp add: alloc_twice split: option.splits prod.splits sum.splits)
qed

lemma apply_check_fails:
  assumes "check_loop chk (h ! df) (columns_to_check self) = Some e"
  shows "FaultConditionFour_apply self chk h df = (h, Inl e)"
  using assms by (simp add: apply_eq)

lemma apply_Inr:
  assumes "df < length h" and "FaultConditionFour_apply self chk h df = (h', Inr r)"
  shows "check_loop chk (h ! df) (columns_to_check self) = None
       \<and> snd (assign_modes self (h ! df)) = None
       \<and> (\<exists>t. astype_int (fst (assign_modes self (h ! df))) = Inr t
              \<and> h' = h[df := fst (assign_modes self (h ! df))]
                       @ [t, set_fc4_flag self (resample_h_apply t)])
       \<and> r = Suc (length h)"
  using assms unfolding apply_eq
  by (auto split: option.splits prod.splits sum.splits)

lemma set_col_append:
  "name \<notin> set (map fst cs) \<Longrightarrow> set_col cs name v = cs @ [(name, v)]"
  by (induction cs name v rule: set_col.induct) auto

lemma map_fst_set_col:
  "fst ` set (set_col cs name v) = insert name (fst ` set cs)"
  by (induction cs name v rule: set_col.induct) auto

lemma assign_modes_shape:
  assumes "assign_modes self df = (d, None)"
  shows "\<exists>b1 b2 b3 b4.
     d = setitem (setitem (setitem (setitem df ''heating_mode'' (map B b1))
           ''econ_only_cooling_mode'' (map B b2))
           ''econ_plus_mech_cooling_mode'' (map B b3))
           ''mech_cooling_only_mode'' (map B b4)"
  using assms
  by (auto simp: assign_modes_def assign_def split: sum.splits)

lemma distinct_mode_names:
  "''heating_mode'' \<noteq> ''econ_only_cooling_mode''"
  "''heating_mode'' \<noteq> ''econ_plus_mech_cooling_mode''"
  "''heating_mode'' \<noteq> ''mech_cooling_only_mode''"
  "''econ_only_cooling_mode'' \<noteq> ''econ_plus_mech_cooling_mode''"
  "''econ_only_cooling_mode'' \<noteq> ''mech_cooling_only_mode''"
  "''econ_plus_mech_cooling_mode'' \<noteq> ''mech_cooling_only_mode''"
  by simp_all

lemma getitem_setitem4_other:
  assumes "name \<noteq> n1" "name \<noteq> n2" "name \<noteq> n3" "name \<noteq> n4"
  shows "getitem (setitem (setitem (setitem (setitem df n1 v1) n2 v2) n3 v3) n4 v4) name
         = getitem df name"
  using assms by (simp add: getitem_setitem)

lemma getitem_setitem4_own:
  assumes "n1 \<noteq> n2" "n1 \<noteq> n3" "n1 \<noteq> n4" "n2 \<noteq> n3" "n2 \<noteq> n4" "n3 \<noteq> n4"
  shows "getitem (setitem (setitem (setitem (setitem df n1 v1) n2 v2) n3 v3) n4 v4) n1 = Inr v1"
    and "getitem (setitem (setitem (setitem (setitem df n1 v1) n2 v2) n3 v3) n4 v4) n2 = Inr v2"
    and "getitem (setitem (setitem (setitem (setitem df n1 v1) n2 v2) n3 v3) n4 v4) n3 = Inr v3"
    and "getitem (setitem (setitem (setitem (setitem df n1 v1) n2 v2) n3 v3) n4 v4) n4 = Inr v4"
  using assms by (simp_all add: getitem_setitem)

lemma columns_setitem4_append:
  assumes "n1 \<noteq> n2" "n1 \<noteq> n3" "n1 \<noteq> n4" "n2 \<noteq> n3" "n2 \<noteq> n4" "n3 \<noteq> n4"
    and "n1 \<notin> set (map fst (columns df))" "n2 \<notin> set (map fst (columns df))"
        "n3 \<notin> set (map fst (columns df))" "n4 \<notin> set (map fst (columns df))"
  shows "columns (setitem (setitem (setitem (setitem df n1 v1) n2 v2) n3 v3) n4 v4)
         = columns df @ [(n1, v1), (n2, v2), (n3, v3), (n4, v4)]"
  using assms by (simp add: setitem_def set_col_append)

lemma getitem_setitem4_mem:
  assumes "n1 \<noteq> n2" "n1 \<noteq> n3" "n1 \<noteq> n4" "n2 \<noteq> n3" "n2 \<noteq> n4" "n3 \<noteq> n4"
    and "name \<in> set [n1, n2, n3, n4]"
  shows "\<exists>bs. getitem (setitem (setitem (setitem (setitem df n1 (map B b1)) n2 (map B b2))
                  n3 (map B b3)) n4 (map B b4)) name = Inr (map B bs)"
proof -
  from assms(7) consider "name = n1" | "name = n2" | "name = n3" | "name = n4"
    by auto
  then show ?thesis
  proof cases
    case 1 then show ?thesis
      using getitem_setitem4_own(1) [OF assms(1-6)] by blast
  next
    case 2 then show ?thesis
      using getitem_setitem4_own(2) [OF assms(1-6)] by blast
  next
    case 3 then show ?thesis
      using getitem_setitem4_own(3) [OF assms(1-6)] by blast
  next
    case 4 then show ?thesis
      using getitem_setitem4_own(4) [OF assms(1-6)] by blast
  qed
qed

lemma assign_modes_frame:
  assumes "assign_modes self df = (d, None)"
  shows "tindex d = tindex df"
    and "name \<notin> set mode_names \<Longrightarrow> getitem d name = getitem df name"
    and "name \<in> set mode_names \<Longrightarrow> \<exists>bs. getitem d name = Inr (map B bs)"
proof -
  from assign_modes_shape [OF assms] obtain b1 b2 b3 b4 where
    d: "d = setitem (setitem (setitem (setitem df ''heating_mode'' (map B b1))
           ''econ_only_cooling_mode'' (map B b2))
           ''econ_plus_mech_cooling_mode'' (map B b3))
           ''mech_cooling_only_mode'' (map B b4)"
    by blast
  show "tindex d = tindex df"
    unfolding d by (simp only: tindex_setitem)
  show "getitem d name = getitem df name" if "name \<notin> set mode_names"
  proof -
    from that have "name \<noteq> ''heating_mode''" "name \<noteq> ''econ_only_cooling_mode''"
      "name \<noteq> ''econ_plus_mech_cooling_mode''" "name \<noteq> ''mech_cooling_only_mode''"
      unfolding mode_names_def by simp_all
    then show ?thesis unfolding d by (rule getitem_setitem4_other)
  qed
  show "\<exists>bs. getitem d name = Inr (map B bs)" if "name \<in> set mode_names"
    unfolding d by (rule getitem_setitem4_mem [OF distinct_mode_names that [unfolded mode_names_def]])
qed

lemma assign_modes_appends:
  assumes "assign_modes self df = (d, None)"
    and "\<forall>name\<in>set mode_names. \<not> has_column df name"
  shows "\<exists>b1 b2 b3 b4. columns d = columns df @
           [(''heating_mode'', map B b1), (''econ_only_cooling_mode'', map B b2),
            (''econ_plus_mech_cooling_mode'', map B b3), (''mech_cooling_only_mode'', map B b4)]"
proof -
  from assign_modes_shape [OF assms(1)] obtain b1 b2 b3 b4 where
    d: "d = setitem (setitem (setitem (setitem df ''heating_mode'' (map B b1))
           ''econ_only_cooling_mode'' (map B b2))
           ''econ_plus_mech_cooling_mode'' (map B b3))
           ''mech_cooling_only_mode'' (map B b4)"
    by blast
  have n: "''heating_mode'' \<notin> set (map fst (columns df))"
          "''econ_only_cooling_mode'' \<notin> set (map fst (columns df))"
          "''econ_plus_mech_cooling_mode'' \<notin> set (map fst (columns df))"
          "''mech_cooling_only_mode'' \<notin> set (map fst (columns df))"
    using assms(2) unfolding mode_names_def has_column_def by simp_all
  have "columns d = columns df @
           [(''heating_mode'', map B b1), (''econ_only_cooling_mode'', map B b2),
            (''econ_plus_mech_cooling_mode'', map B b3), (''mech_cooling_only_mode'', map B b4)]"
    unfolding d by (rule columns_setitem4_append [OF distinct_mode_names n])
  then show ?thesis by blast
qed

lemma check_ex_int_coded:
  "check_analog_pct ex_int_coded [''economizer_sig''] = None"
  "check_analog_pct ex_int_coded [''heating_sig''] = Some (InvalidSignalType ''heating_sig'')"
  by (simp_all add: ex_int_coded_def fgt_def)

lemma check_loop_ex_rows:
  "check_loop check_analog_pct ex_rows (columns_to_check ex_cfg) = None"
  by (simp add: columns_to_check_def ex_cfg_def ex_rows_def fgt_def)

lemma astype_int_ex_rows:
  "astype_int (ex_rows\<lparr>columns := columns ex_rows @
        [(''heating_mode'', [B True, B False, B False]),
         (''econ_only_cooling_mode'', [B False, B False, B False]),
         (''econ_plus_mech_cooling_mode'', [B False, B False, B False]),
         (''mech_cooling_only_mode'', [B False, B False, B False])]\<rparr>) =
     Inr \<lparr>tindex = [0, 300, 600],
          columns = [(''economizer_sig'', [I 0, I 0, I 0]),
                     (''heating_sig'', [I 0, I 0, I 0]),
                     (''cooling_sig'', [I 0, I 0, I 0]),
                     (''supply_vfd_speed'', [I 0, I 0, I 0]),
                     (''heating_mode'', [I 1, I 0, I 0]),
                     (''econ_only_cooling_mode'', [I 0, I 0, I 0]),
                     (''econ_plus_mech_cooling_mode'', [I 0, I 0, I 0]),
                     (''mech_cooling_only_mode'', [I 0, I 0, I 0])]\<rparr>"
  by (simp add: astype_int_def ex_rows_def)

lemma apply_ex_rows:
  "FaultConditionFour_apply ex_cfg check_analog_pct [ex_int_coded, ex_rows] 1 =
     (fst (FaultConditionFour_apply ex_cfg check_analog_pct [ex_int_coded, ex_rows] 1), Inr 3)"
  by (simp add: apply_eq check_loop_ex_rows astype_int_ex_rows assign_modes_ex_rows)

text \<open>
  Claim C8. With troubleshoot mode off, the validation of the economizer, heating, cooling
  and fan-speed columns runs before any mode or flag is computed: if the validator raises
  for one of these columns, \<^verbatim>\<open>apply\<close> ends with a validator error and the heap is exactly as it
  was, so no mode-indicator or flag column has been written and no frame has been made.
\<close>

theorem validation_before_modes:
  assumes "\<not> troubleshoot_mode self"
    and "c \<in> set (columns_to_check self)"
    and "chk (h ! df) [c] = Some e"
  shows "\<exists>e'. FaultConditionFour_apply self chk h df = (h, Inl e')
            \<and> (\<exists>c'\<in>set (columns_to_check self). chk (h ! df) [c'] = Some e')"
proof -
  from check_loop_Some [of c "columns_to_check self" chk "h ! df" e, OF assms(2,3)] obtain e' where
    e': "check_loop chk (h ! df) (columns_to_check self) = Some e'"
    and c': "\<exists>c'\<in>set (columns_to_check self). chk (h ! df) [c'] = Some e'"
    by blast
  from apply_check_fails [OF e'] c' show ?thesis by blast
qed

theorem validation_before_modes_witness:
  "FaultConditionFour_apply ex_cfg check_analog_pct [ex_int_coded] 0 =
     ([ex_int_coded], Inl (InvalidSignalType ''heating_sig''))"
proof -
  have t: "\<not> troubleshoot_mode ex_cfg"
    by (simp add: ex_cfg_def)
  have c: "''heating_sig'' \<in> set (columns_to_check ex_cfg)"
    by (simp add: columns_to_check_def ex_cfg_def)
  have k: "check_analog_pct ([ex_int_coded] ! 0) [''heating_sig''] =
             Some (InvalidSignalType ''heating_sig'')"
    by (simp del: check_analog_pct.simps add: check_ex_int_coded)
  from validation_before_modes [of ex_cfg "''heating_sig''" check_analog_pct "[ex_int_coded]" 0
      "InvalidSignalType ''heating_sig''", OF t c k] obtain e' where
    a: "FaultConditionFour_apply ex_cfg check_analog_pct [ex_int_coded] 0 = ([ex_int_coded], Inl e')"
    and b: "\<exists>c'\<in>set (columns_to_check ex_cfg). check_analog_pct ([ex_int_coded] ! 0) [c'] = Some e'"
    by blast
  have "check_analog_pct ex_int_coded [c'] = Some e' \<Longrightarrow> e' = InvalidSignalType ''heating_sig''"
    if "c' \<in> set (columns_to_check ex_cfg)" for c'
    using that by (auto simp: columns_to_check_def ex_cfg_def ex_int_coded_def fgt_def)
  with b have "e' = InvalidSignalType ''heating_sig''"
    by auto
  with a show ?thesis by simp
qed

text \<open>
  Claim C9. When \<^verbatim>\<open>apply\<close> returns, the returned reference is a new frame, different from the
  caller's and from every frame that existed; the other frames are untouched. The
  caller's frame is the one the four mode assignments left: its index (timestamps, row
  count) is unchanged, every column other than the four mode columns reads as before, the
  four mode columns are boolean columns, and they are appended in order after the existing
  columns when the frame had none of these names. The flag column is in the returned
  frame.
\<close>

theorem apply_mutates_caller_frame:
  assumes "df < length h" and "FaultConditionFour_apply self chk h df = (h', Inr r)"
  shows "length h \<le> r \<and> r < length h' \<and> r \<noteq> df
       \<and> (\<forall>a<length h. a \<noteq> df \<longrightarrow> h' ! a = h ! a)
       \<and> assign_modes self (h ! df) = (h' ! df, None)
       \<and> tindex (h' ! df) = tindex (h ! df)
       \<and> (\<forall>name. name \<notin> set mode_names \<longrightarrow> getitem (h' ! df) name = getitem (h ! df) name)
       \<and> (\<forall>name\<in>set mode_names. \<exists>bs. getitem (h' ! df) name = Inr (map B bs))
       \<and> ((\<forall>name\<in>set mode_names. \<not> has_column (h ! df) name) \<longrightarrow>
            (\<exists>b1 b2 b3 b4. columns (h' ! df) = columns (h ! df) @
               [(''heating_mode'', map B b1), (''econ_only_cooling_mode'', map B b2),
                (''econ_plus_mech_cooling_mode'', map B b3),
                (''mech_cooling_only_mode'', map B b4)]))
       \<and> has_column (h' ! r) ''fc4_flag''"
proof -
  let ?d = "fst (assign_modes self (h ! df))"
  from apply_Inr [OF assms] obtain t where
    am: "snd (assign_modes self (h ! df)) = None"
    and t: "astype_int ?d = Inr t"
    and h': "h' = h[df := ?d] @ [t, set_fc4_flag self (resample_h_apply t)]"
    and r: "r = Suc (length h)"
    by blast
  have d: "h' ! df = ?d"
    using assms(1) by (simp add: h' nth_append)
  have am': "assign_modes self (h ! df) = (h' ! df, None)"
    using am d by (simp add: prod_eq_iff)
  have 1: "length h \<le> r \<and> r < length h' \<and> r \<noteq> df"
    using assms(1) by (simp add: h' r)
  have 2: "\<forall>a<length h. a \<noteq> df \<longrightarrow> h' ! a = h ! a"
    by (simp add: h' nth_append)
  have 3: "has_column (h' ! r) ''fc4_flag''"
    by (simp add: h' r nth_append set_fc4_flag_def setitem_def has_column_def map_fst_set_col)
  from 1 2 3 am' assign_modes_frame [OF am'] assign_modes_appends [OF am']
  show ?thesis by blast
qed

theorem apply_mutates_caller_frame_witness:
  "snd (FaultConditionFour_apply ex_cfg check_analog_pct [ex_int_coded, ex_rows] 1) = Inr 3
   \<and> fst (FaultConditionFour_apply ex_cfg check_analog_pct [ex_int_coded, ex_rows] 1) ! 0
       = ex_int_coded
   \<and> tindex (fst (FaultConditionFour_apply ex_cfg check_analog_pct [ex_int_coded, ex_rows] 1) ! 1)
       = [0, 300, 600]
   \<and> columns (fst (FaultConditionFour_apply ex_cfg check_analog_pct [ex_int_coded, ex_rows] 1) ! 1)
       = columns ex_rows @
          [(''heating_mode'', [B True, B False, B False]),
           (''econ_only_cooling_mode'', [B False, B False, B False]),
           (''econ_plus_mech_cooling_mode'', [B False, B False, B False]),
           (''mech_cooling_only_mode'', [B False, B False, B False])]
   \<and> getitem (fst (FaultConditionFour_apply ex_cfg check_analog_pct [ex_int_coded, ex_rows] 1) ! 1)
         ''heating_sig'' = Inr [F (Fin (1/2)), F (Fin (1/2)), F (Fin (1/2))]
   \<and> has_column
        (fst (FaultConditionFour_apply ex_cfg check_analog_pct [ex_int_coded, ex_rows] 1) ! 3)
        ''fc4_flag''
   \<and> \<not> has_column
        (fst (FaultConditionFour_apply ex_cfg check_analog_pct [ex_int_coded, ex_rows] 1) ! 1)
        ''fc4_flag''"
proof -
  let ?h = "[ex_int_coded, ex_rows]"
  let ?h' = "fst (FaultConditionFour_apply ex_cfg check_analog_pct ?h 1)"
  have l: "1 < length ?h" by simp
  note th = apply_mutates_caller_frame [OF l apply_ex_rows]
  have nc: "\<forall>name\<in>set mode_names. \<not> has_column (?h ! 1) name"
    by (simp add: mode_names_def has_column_def ex_rows_def)
  have nm: "''heating_sig'' \<notin> set mode_names"
    by (simp add: mode_names_def)
  from th have am: "assign_modes ex_cfg (?h ! 1) = (?h' ! 1, None)"
    by blast
  then have d: "?h' ! 1 = ex_rows\<lparr>columns := columns ex_rows @
        [(''heating_mode'', [B True, B False, B False]),
         (''econ_only_cooling_mode'', [B False, B False, B False]),
         (''econ_plus_mech_cooling_mode'', [B False, B False, B False]),
         (''mech_cooling_only_mode'', [B False, B False, B False])]\<rparr>"
    by (simp add: assign_modes_ex_rows)
  from th have 0: "?h' ! 0 = ?h ! 0"
    by simp
  from th have 1: "tindex (?h' ! 1) = tindex (?h ! 1)"
    by blast
  from th have 2: "has_column (?h' ! 3) ''fc4_flag''"
    by blast
  from th nc have 3: "\<exists>b1 b2 b3 b4. columns (?h' ! 1) = columns (?h ! 1) @
               [(''heating_mode'', map B b1), (''econ_only_cooling_mode'', map B b2),
                (''econ_plus_mech_cooling_mode'', map B b3),
                (''mech_cooling_only_mode'', map B b4)]"
    by blast
  from th nm have 6: "getitem (?h' ! 1) ''heating_sig'' = getitem (?h ! 1) ''heating_sig''"
    by blast
  have 4: "\<not> has_column (?h' ! 1) ''fc4_flag''"
    unfolding d by (simp add: has_column_def ex_rows_def)
  have 5: "snd (FaultConditionFour_apply ex_cfg check_analog_pct ?h 1) = Inr 3"
    using apply_ex_rows by (simp add: prod_eq_iff)
  have 7: "getitem (?h ! 1) ''heating_sig'' = Inr [F (Fin (1/2)), F (Fin (1/2)), F (Fin (1/2))]"
    by (simp add: getitem_def ex_rows_def)
  from 0 1 2 4 5 6 7 d show ?thesis
    by (simp add: ex_rows_def)
qed

section \<open>Properties of the hunting counter\<close>

lemma filter_upt_Suc:
  "filter P [0..<Suc n] = (if P 0 then [0] else []) @ map Suc (filter (\<lambda>j. P (Suc j)) [0..<n])"
proof -
  have "[0..<Suc n] = 0 # map Suc [0..<n]"
    by (simp add: upt_conv_Cons map_Suc_upt del: upt_Suc)
  then show ?thesis
    by (simp add: filter_map comp_def del: upt_Suc)
qed

lemma edges_from_Cons:
  "length (filter (\<lambda>j. (x # b) ! j \<and> (if j = 0 then q else \<not> (x # b) ! (j - 1))) [0..<length (x # b)])
   = (if x \<and> q then 1 else 0)
     + length (filter (\<lambda>j. b ! j \<and> (if j = 0 then \<not> x else \<not> b ! (j - 1))) [0..<length b])"
proof -
  have "(\<lambda>j. (x # b) ! Suc j \<and> (if Suc j = 0 then q else \<not> (x # b) ! (Suc j - 1)))
        = (\<lambda>j. b ! j \<and> (if j = 0 then \<not> x else \<not> b ! (j - 1)))"
    by (rule ext) (auto simp: nth_Cons split: nat.splits)
  then show ?thesis
    by (simp add: filter_upt_Suc del: upt_Suc)
qed

lemma shifted_count:
  "length (filter (\<lambda>b. b) (map (\<lambda>(a, b). a \<and> b) (zip b (p # map Not (butlast b)))))
   = length (filter (\<lambda>j. b ! j \<and> (if j = 0 then p else \<not> b ! (j - 1))) [0..<length b])"
proof (induction b arbitrary: p)
  case Nil
  then show ?case by simp
next
  case (Cons x b)
  show ?case
  proof (cases b)
    case Nil
    then show ?thesis by simp
  next
    case (Cons y b')
    have "length (filter (\<lambda>b. b) (map (\<lambda>(a, b). a \<and> b) (zip (x # b) (p # map Not (butlast (x # b))))))
          = (if x \<and> p then 1 else 0)
            + length (filter (\<lambda>b. b) (map (\<lambda>(a, b). a \<and> b) (zip b (Not x # map Not (butlast b)))))"
      using Cons by simp
    also have "\<dots> = (if x \<and> p then 1 else 0)
            + length (filter (\<lambda>j. b ! j \<and> (if j = 0 then \<not> x else \<not> b ! (j - 1))) [0..<length b])"
      by (simp only: Cons.IH)
    also have "\<dots> = length (filter (\<lambda>j. (x # b) ! j \<and> (if j = 0 then p else \<not> (x # b) ! (j - 1)))
                        [0..<length (x # b)])"
      by (rule edges_from_Cons [symmetric])
    finally show ?thesis .
  qed
qed

lemma count_rising_bools:
  "count_rising (map (\<lambda>b. I (if b then 1 else 0)) bs) = int (rising_edges bs)"
proof (cases bs)
  case Nil
  then show ?thesis
    by (simp add: count_rising_def rising_edges_def s_sum_def s_and_def s_eq_def s_ne_def s_shift_def)
next
  case (Cons x xs)
  have e: "s_eq (map (\<lambda>b. I (if b then 1 else 0)) bs) 1 = bs"
    by (simp add: s_eq_def map_idI)
  have n: "s_ne (s_shift (map (\<lambda>b. I (if b then 1 else 0)) bs)) 1 = True # map Not (butlast bs)"
    using Cons by (simp add: s_ne_def s_shift_def map_butlast [symmetric] comp_def)
  have "(\<lambda>j. bs ! j \<and> (if j = 0 then True else \<not> bs ! (j - 1)))
        = (\<lambda>j. bs ! j \<and> (j = 0 \<or> \<not> bs ! (j - 1)))"
    by (rule ext) simp
  then show ?thesis
    unfolding count_rising_def e n s_sum_def s_and_def rising_edges_def
    by (simp only: shifted_count)
qed

lemma insort_key_apsnd:
  "insort_key fst (apsnd f p) (map (apsnd f) ps) = map (apsnd f) (insort_key fst p ps)"
  by (induction ps) auto

lemma sort_key_apsnd:
  "sort_key fst (map (apsnd f) ps) = map (apsnd f) (sort_key fst ps)"
  by (induction ps) (simp_all add: insort_key_apsnd)

lemma bucket_map: "bucket idx (map f x) k = map f (bucket idx x k)"
proof -
  have "zip idx (map f x) = map (apsnd f) (zip idx x)"
    by (simp add: zip_map2 apsnd_def map_prod_def)
  then show ?thesis
    by (simp add: bucket_def sort_key_apsnd filter_map comp_def case_prod_beta cong: filter_cong)
qed

lemma getitem_resample:
  "getitem (resample_h_apply t) name =
     (case getitem t name of
        Inl e \<Rightarrow> Inl e
      | Inr x \<Rightarrow> Inr (map (\<lambda>k. I (count_rising (bucket (tindex t) x k))) (hour_bins (tindex t))))"
proof -
  have "map_of (map (\<lambda>(n, x). (n, f x)) cs) name = map_option f (map_of cs name)"
    for f :: "cell list \<Rightarrow> cell list" and cs
    by (induction cs) auto
  then show ?thesis
    by (simp add: getitem_def resample_h_apply_def split: option.splits)
qed

lemma series_astype_int_bools:
  "series_astype_int (map B bs) = Inr (map (\<lambda>b. I (if b then 1 else 0)) bs)"
  by (induction bs) simp_all

lemma columns_astype_int_lookup:
  "columns_astype_int cs = Inr cs' \<Longrightarrow> map_of cs name = Some x \<Longrightarrow>
     \<exists>y. series_astype_int x = Inr y \<and> map_of cs' name = Some y"
  by (induction cs arbitrary: cs' rule: columns_astype_int.induct)
     (auto split: sum.splits if_splits)

lemma astype_int_frame:
  assumes "astype_int d = Inr t"
  shows "tindex t = tindex d"
    and "getitem d name = Inr x \<Longrightarrow> \<exists>y. series_astype_int x = Inr y \<and> getitem t name = Inr y"
proof -
  from assms obtain cs where cs: "columns_astype_int (columns d) = Inr cs"
    and t: "t = d\<lparr>columns := cs\<rparr>"
    by (auto simp: astype_int_def split: sum.splits)
  show "tindex t = tindex d" by (simp add: t)
  assume "getitem d name = Inr x"
  then have "map_of (columns d) name = Some x"
    by (simp add: getitem_def split: option.splits)
  from columns_astype_int_lookup [OF cs this]
  show "\<exists>y. series_astype_int x = Inr y \<and> getitem t name = Inr y"
    by (auto simp: getitem_def t)
qed

lemma set_fc4_flag_frame:
  "tindex (set_fc4_flag self t) = tindex t"
  "name \<noteq> ''fc4_flag'' \<Longrightarrow> getitem (set_fc4_flag self t) name = getitem t name"
  by (simp_all add: set_fc4_flag_def tindex_setitem getitem_setitem)

lemma mode_names_not_flag: "name \<in> set mode_names \<Longrightarrow> name \<noteq> ''fc4_flag''"
  by (auto simp: mode_names_def)

lemma alternating_edges:
  assumes "\<forall>j. Suc j < length b \<longrightarrow> \<not> (b ! j \<and> b ! Suc j)"
    and "b \<noteq> [] \<and> hd b \<longrightarrow> q"
  shows "length (filter (\<lambda>j. b ! j \<and> (if j = 0 then q else \<not> b ! (j - 1))) [0..<length b])
         = length (filter (\<lambda>x. x) b)"
  using assms
proof (induction b arbitrary: q)
  case Nil
  then show ?case by simp
next
  case (Cons x b)
  have 1: "\<forall>j. Suc j < length b \<longrightarrow> \<not> (b ! j \<and> b ! Suc j)"
    using Cons.prems(1) by force
  have 2: "b \<noteq> [] \<and> hd b \<longrightarrow> \<not> x"
    using Cons.prems(1) [rule_format, of 0] by (cases b) auto
  have 3: "x \<longrightarrow> q"
    using Cons.prems(2) by simp
  show ?case
    unfolding edges_from_Cons Cons.IH [OF 1 2] using 3 by auto
qed

lemmas fc4_eval = FaultConditionFour_apply_def columns_to_check_def assign_modes_def
  assign_def heating_mode_def econ_only_cooling_mode_def econ_plus_mech_cooling_mode_def
  mech_cooling_only_mode_def get_signals_def getitem_def setitem_def s_and_def s_gt_def s_eq_def
  fgt_def astype_int_def alloc_def resample_h_apply_def hour_bins_def hour_of_def bucket_def
  count_rising_def s_ne_def s_shift_def s_sum_def set_fc4_flag_def any_gt_def upto_rec1

lemma apply_ex_two_hours:
  "FaultConditionFour_apply ex_cfg check_analog_pct [ex_two_hours] 0 =
    ([ex_two_hours\<lparr>columns := columns ex_two_hours @
        [(''heating_mode'', [B True, B True]),
         (''econ_only_cooling_mode'', [B False, B False]),
         (''econ_plus_mech_cooling_mode'', [B False, B False]),
         (''mech_cooling_only_mode'', [B False, B False])]\<rparr>,
      \<lparr>tindex = [3000, 4000],
       columns = [(''economizer_sig'', [I 0, I 0]), (''heating_sig'', [I 0, I 0]),
         (''cooling_sig'', [I 0, I 0]), (''supply_vfd_speed'', [I 0, I 0]),
         (''heating_mode'', [I 1, I 1]),
         (''econ_only_cooling_mode'', [I 0, I 0]),
         (''econ_plus_mech_cooling_mode'', [I 0, I 0]),
         (''mech_cooling_only_mode'', [I 0, I 0])]\<rparr>,
      \<lparr>tindex = [0, 3600],
       columns = [(''economizer_sig'', [I 0, I 0]), (''heating_sig'', [I 0, I 0]),
         (''cooling_sig'', [I 0, I 0]), (''supply_vfd_speed'', [I 0, I 0]),
         (''heating_mode'', [I 1, I 1]),
         (''econ_only_cooling_mode'', [I 0, I 0]),
         (''econ_plus_mech_cooling_mode'', [I 0, I 0]),
         (''mech_cooling_only_mode'', [I 0, I 0]),
         (''fc4_flag'', [I 0, I 0])]\<rparr>], Inr 2)"
  by (simp add: fc4_eval ex_cfg_def ex_two_hours_def)

lemma apply_ex_alt:
  "FaultConditionFour_apply ex_cfg check_analog_pct [ex_alt] 0 =
    ([ex_alt\<lparr>columns := columns ex_alt @
        [(''heating_mode'', [B True, B False, B True, B False, B True, B False]),
         (''econ_only_cooling_mode'', [B False, B True, B False, B True, B False, B True]),
         (''econ_plus_mech_cooling_mode'', [B False, B False, B False, B False, B False, B False]),
         (''mech_cooling_only_mode'', [B False, B False, B False, B False, B False, B False])]\<rparr>,
      \<lparr>tindex = [0, 900, 1800, 2700, 3600, 4500],
       columns = [(''economizer_sig'', [I 0, I 0, I 0, I 0, I 0, I 0]),
         (''heating_sig'', [I 0, I 0, I 0, I 0, I 0, I 0]),
         (''cooling_sig'', [I 0, I 0, I 0, I 0, I 0, I 0]),
         (''supply_vfd_speed'', [I 0, I 0, I 0, I 0, I 0, I 0]),
         (''heating_mode'', [I 1, I 0, I 1, I 0, I 1, I 0]),
         (''econ_only_cooling_mode'', [I 0, I 1, I 0, I 1, I 0, I 1]),
         (''econ_plus_mech_cooling_mode'', [I 0, I 0, I 0, I 0, I 0, I 0]),
         (''mech_cooling_only_mode'', [I 0, I 0, I 0, I 0, I 0, I 0])]\<rparr>,
      \<lparr>tindex = [0, 3600],
       columns = [(''economizer_sig'', [I 0, I 0]), (''heating_sig'', [I 0, I 0]),
         (''cooling_sig'', [I 0, I 0]), (''supply_vfd_speed'', [I 0, I 0]),
         (''heating_mode'', [I 2, I 1]),
         (''econ_only_cooling_mode'', [I 2, I 1]),
         (''econ_plus_mech_cooling_mode'', [I 0, I 0]),
         (''mech_cooling_only_mode'', [I 0, I 0]),
         (''fc4_flag'', [I 0, I 0])]\<rparr>], Inr 2)"
  by (simp add: fc4_eval ex_cfg_def ex_alt_def)

lemma apply_ex_fan:
  "FaultConditionFour_apply ex_cfg check_analog_pct [ex_fan] 0 =
    ([ex_fan\<lparr>columns := columns ex_fan @
        [(''heating_mode'', [B False, B False, B False, B False, B False, B False, B False, B False, B False, B False, B False, B False, B False, B False, B False, B False]),
         (''econ_only_cooling_mode'', [B False, B False, B False, B False, B False, B False, B False, B False, B False, B False, B False, B False, B False, B False, B False, B False]),
         (''econ_plus_mech_cooling_mode'', [B False, B False, B False, B False, B False, B False, B False, B False, B False, B False, B False, B False, B False, B False, B False, B False]),
         (''mech_cooling_only_mode'', [B False, B False, B False, B False, B False, B False, B False, B False, B False, B False, B False, B False, B False, B False, B False, B False])]\<rparr>,
      \<lparr>tindex = tindex ex_fan,
       columns = [(''economizer_sig'', [I 0, I 0, I 0, I 0, I 0, I 0, I 0, I 0, I 0, I 0, I 0, I 0, I 0, I 0, I 0, I 0]), (''heating_sig'', [I 0, I 0, I 0, I 0, I 0, I 0, I 0, I 0, I 0, I 0, I 0, I 0, I 0, I 0, I 0, I 0]),
         (''cooling_sig'', [I 0, I 0, I 0, I 0, I 0, I 0, I 0, I 0, I 0, I 0, I 0, I 0, I 0, I 0, I 0, I 0]), (''supply_vfd_speed'', [I 1, I 0, I 1, I 0, I 1, I 0, I 1, I 0, I 1, I 0, I 1, I 0, I 1, I 0, I 1, I 0]),
         (''heating_mode'', [I 0, I 0, I 0, I 0, I 0, I 0, I 0, I 0, I 0, I 0, I 0, I 0, I 0, I 0, I 0, I 0]),
         (''econ_only_cooling_mode'', [I 0, I 0, I 0, I 0, I 0, I 0, I 0, I 0, I 0, I 0, I 0, I 0, I 0, I 0, I 0, I 0]),
         (''econ_plus_mech_cooling_mode'', [I 0, I 0, I 0, I 0, I 0, I 0, I 0, I 0, I 0, I 0, I 0, I 0, I 0, I 0, I 0, I 0]),
         (''mech_cooling_only_mode'', [I 0, I 0, I 0, I 0, I 0, I 0, I 0, I 0, I 0, I 0, I 0, I 0, I 0, I 0, I 0, I 0])]\<rparr>,
      \<lparr>tindex = [0],
       columns = [(''economizer_sig'', [I 0]), (''heating_sig'', [I 0]),
         (''cooling_sig'', [I 0]), (''supply_vfd_speed'', [I 8]),
         (''heating_mode'', [I 0]),
         (''econ_only_cooling_mode'', [I 0]),
         (''econ_plus_mech_cooling_mode'', [I 0]),
         (''mech_cooling_only_mode'', [I 0]),
         (''fc4_flag'', [I 1])]\<rparr>], Inr 2)"
  by (simp add: fc4_eval ex_cfg_def ex_fan_def)

lemma rising_edges_alternating:
  assumes "\<forall>j. Suc j < length b \<longrightarrow> b ! Suc j = (\<not> b ! j)"
  shows "rising_edges b = length (filter (\<lambda>x. x) b)"
proof -
  have 1: "\<forall>j. Suc j < length b \<longrightarrow> \<not> (b ! j \<and> b ! Suc j)"
    using assms by auto
  have "(\<lambda>j. b ! j \<and> (j = 0 \<or> \<not> b ! (j - 1)))
        = (\<lambda>j. b ! j \<and> (if j = 0 then True else \<not> b ! (j - 1)))"
    by (rule ext) simp
  then show ?thesis
    unfolding rising_edges_def using alternating_edges [OF 1, of True] by simp
qed

lemma inj_map_B: "map B x = map B y \<Longrightarrow> x = y"
  using inj_map_eq_map [of B x y] by (simp add: inj_on_def)

text \<open>
  What the counter computes. For every mode column, the returned hourly frame has one row
  per hourly bin, and the count of a bin is the number of rows of that bin where the mode
  indicator is true and the row before it within the same bin is not true: the first row
  of a bin counts whenever it is true. For an indicator that alternates every row this is
  the number of rows at which the indicator is true.
\<close>

lemma hunting_count_rising_edges_in_bucket:
  assumes "df < length h"
    and "FaultConditionFour_apply self chk h df = (h', Inr r)"
    and "name \<in> set mode_names"
  shows "(\<exists>bs. getitem (h' ! df) name = Inr (map B bs)
           \<and> tindex (h' ! r) = map (\<lambda>k. k * 3600) (hour_bins (tindex (h' ! df)))
           \<and> getitem (h' ! r) name =
               Inr (map (\<lambda>k. I (int (rising_edges (bucket (tindex (h' ! df)) bs k))))
                        (hour_bins (tindex (h' ! df)))))
       \<and> (\<forall>b. (\<forall>j. Suc j < length b \<longrightarrow> b ! Suc j = (\<not> b ! j))
              \<longrightarrow> rising_edges b = length (filter (\<lambda>x. x) b))"
proof -
  let ?d = "fst (assign_modes self (h ! df))"
  from apply_Inr [OF assms(1,2)] obtain t where
    am: "snd (assign_modes self (h ! df)) = None"
    and t: "astype_int ?d = Inr t"
    and h': "h' = h[df := ?d] @ [t, set_fc4_flag self (resample_h_apply t)]"
    and r: "r = Suc (length h)"
    by blast
  have d: "h' ! df = ?d"
    using assms(1) by (simp add: h' nth_append)
  have res: "h' ! r = set_fc4_flag self (resample_h_apply t)"
    by (simp add: h' r nth_append)
  have am': "assign_modes self (h ! df) = (?d, None)"
    using am by (simp add: prod_eq_iff)
  from assign_modes_frame(3) [OF am' assms(3)] obtain bs where
    bs: "getitem ?d name = Inr (map B bs)"
    by blast
  from astype_int_frame(2) [OF t bs] have
    y: "getitem t name = Inr (map (\<lambda>b. I (if b then 1 else 0)) bs)"
    by (simp add: series_astype_int_bools)
  have ti: "tindex t = tindex ?d"
    by (rule astype_int_frame(1) [OF t])
  have 1: "tindex (h' ! r) = map (\<lambda>k. k * 3600) (hour_bins (tindex ?d))"
    by (simp add: res set_fc4_flag_frame(1) resample_h_apply_def ti)
  have 2: "getitem (h' ! r) name =
               Inr (map (\<lambda>k. I (int (rising_edges (bucket (tindex ?d) bs k))))
                        (hour_bins (tindex ?d)))"
    unfolding res set_fc4_flag_frame(2) [OF mode_names_not_flag [OF assms(3)]]
    by (simp add: getitem_resample y ti bucket_map count_rising_bools)
  from bs 1 2 have "\<exists>bs. getitem (h' ! df) name = Inr (map B bs)
           \<and> tindex (h' ! r) = map (\<lambda>k. k * 3600) (hour_bins (tindex (h' ! df)))
           \<and> getitem (h' ! r) name =
               Inr (map (\<lambda>k. I (int (rising_edges (bucket (tindex (h' ! df)) bs k))))
                        (hour_bins (tindex (h' ! df))))"
    unfolding d by blast
  then show ?thesis
    using rising_edges_alternating by blast
qed

lemma hunting_count_rising_edges_in_bucket_example:
  "getitem (fst (FaultConditionFour_apply ex_cfg check_analog_pct [ex_alt] 0) ! 2) ''heating_mode''
     = Inr [I 2, I 1]
   \<and> rising_edges [True, False, True, False] = length (filter (\<lambda>x. x) [True, False, True, False])"
proof -
  let ?h' = "fst (FaultConditionFour_apply ex_cfg check_analog_pct [ex_alt] 0)"
  let ?b = "[True, False, True, False, True, False]"
  have l: "0 < length [ex_alt]" by simp
  have a: "FaultConditionFour_apply ex_cfg check_analog_pct [ex_alt] 0 = (?h', Inr 2)"
    by (simp add: apply_ex_alt)
  have n: "''heating_mode'' \<in> set mode_names"
    by (simp add: mode_names_def)
  note th = hunting_count_rising_edges_in_bucket [OF l a n]
  from th obtain bs where
    bs: "getitem (?h' ! 0) ''heating_mode'' = Inr (map B bs)"
    and c: "getitem (?h' ! 2) ''heating_mode'' =
              Inr (map (\<lambda>k. I (int (rising_edges (bucket (tindex (?h' ! 0)) bs k))))
                       (hour_bins (tindex (?h' ! 0))))"
    by blast
  have "getitem (?h' ! 0) ''heating_mode'' = Inr (map B ?b)"
    unfolding apply_ex_alt by (simp add: getitem_def ex_alt_def)
  with bs have bs': "bs = ?b"
    by (simp add: inj_map_B)
  have i: "tindex (?h' ! 0) = [0, 900, 1800, 2700, 3600, 4500]"
    unfolding apply_ex_alt by (simp add: ex_alt_def)
  have e: "map (\<lambda>k. I (int (rising_edges (bucket [0, 900, 1800, 2700, 3600, 4500] ?b k))))
               (hour_bins [0, 900, 1800, 2700, 3600, 4500]) = [I 2, I 1]"
    by (simp add: hour_bins_def hour_of_def bucket_def rising_edges_def upto_rec1)
  have 1: "getitem (?h' ! 2) ''heating_mode'' = Inr [I 2, I 1]"
    using c unfolding bs' i e .
  have q: "\<forall>j. Suc j < length [True, False, True, False]
             \<longrightarrow> [True, False, True, False] ! Suc j = (\<not> [True, False, True, False] ! j)"
    by (simp add: nth_Cons less_Suc_eq split: nat.splits)
  have 2: "rising_edges [True, False, True, False]
           = length (filter (\<lambda>x. x) [True, False, True, False])"
    using th q by blast
  from 1 2 show ?thesis by blast
qed

text \<open>
  Claim C2 on the frame \<open>ex_two_hours\<close>: two rows in consecutive hours, both in heating
  mode. The second row is true and its predecessor in the unresampled series is true as
  well, so the unit did not enter heating in the second hour and the count of rising edges
  for that hour is 0. The code returns 1: \<^verbatim>\<open>x.shift()\<close> starts again in every bin and
  compares the first row of the second hour with NaN.
\<close>

theorem hunting_count_restarts_per_bucket:
  "getitem (fst (FaultConditionFour_apply ex_cfg check_analog_pct [ex_two_hours] 0) ! 0)
       ''heating_mode'' = Inr [B True, B True]
   \<and> getitem (fst (FaultConditionFour_apply ex_cfg check_analog_pct [ex_two_hours] 0) ! 2)
       ''heating_mode'' = Inr [I 1, I 1]
   \<and> tindex (fst (FaultConditionFour_apply ex_cfg check_analog_pct [ex_two_hours] 0) ! 2)
       = [0, 3600]
   \<and> edges_unresampled (tindex ex_two_hours) [True, True] 0 = 1
   \<and> edges_unresampled (tindex ex_two_hours) [True, True] 1 = 0"
  unfolding apply_ex_two_hours
  by (simp add: getitem_def edges_unresampled_def ex_two_hours_def hour_of_def)

text \<open>
  Claim C1 on the frame \<open>ex_fan\<close>, with \<open>delta_os_max = 7\<close>: no row is in any of the four
  modes, so the four mode counts of the hour are 0, yet the hour is flagged, because the
  count of the fan-speed column (8 times at full speed after a lower speed) exceeds the
  limit.
\<close>

theorem hunting_flag_counts_signal_columns:
  "getitem (fst (FaultConditionFour_apply ex_cfg check_analog_pct [ex_fan] 0) ! 2)
       ''heating_mode'' = Inr [I 0]
   \<and> getitem (fst (FaultConditionFour_apply ex_cfg check_analog_pct [ex_fan] 0) ! 2)
       ''econ_only_cooling_mode'' = Inr [I 0]
   \<and> getitem (fst (FaultConditionFour_apply ex_cfg check_analog_pct [ex_fan] 0) ! 2)
       ''econ_plus_mech_cooling_mode'' = Inr [I 0]
   \<and> getitem (fst (FaultConditionFour_apply ex_cfg check_analog_pct [ex_fan] 0) ! 2)
       ''mech_cooling_only_mode'' = Inr [I 0]
   \<and> getitem (fst (FaultConditionFour_apply ex_cfg check_analog_pct [ex_fan] 0) ! 2)
       ''supply_vfd_speed'' = Inr [I 8]
   \<and> getitem (fst (FaultConditionFour_apply ex_cfg check_analog_pct [ex_fan] 0) ! 2)
       ''fc4_flag'' = Inr [I 1]
   \<and> delta_os_max ex_cfg = 7"
  unfolding apply_ex_fan by (simp add: getitem_def ex_cfg_def ex_fan_def)

end
